theory Spec2Isabelle
  imports Complex_Main "HOL-Library.Log_Nat" "HOL-Library.Sublist" "HOL-Library.Multiset"
begin

section \<open>Python values used by the scripts\<close>

subsection \<open>Floats\<close>

text \<open>
  A Python \<open>float\<close> is an IEEE-754 binary64 number.  A finite float is modelled by the
  rational it denotes, and every arithmetic operation of the source is the exact
  operation followed by rounding to the nearest number with a 53-bit significand, ties
  to even (\<open>to_double\<close>).  The exponent range is not modelled: there is no overflow to
  infinity, no subnormal number, no NaN and no signed zero.
\<close>

definition round_half_even :: "rat \<Rightarrow> int" where
  "round_half_even x =
     (let f = \<lfloor>x\<rfloor>; d = x - of_int f
      in if d < 1 / 2 then f else if 1 / 2 < d then f + 1 else if even f then f else f + 1)"

text \<open>The exponent \<open>e\<close> with \<open>2 powi e \<le> x < 2 powi (e + 1)\<close>, for positive \<open>x\<close>.\<close>

definition binade :: "rat \<Rightarrow> int" where
  "binade x = (if 1 \<le> x then bitlen \<lfloor>x\<rfloor> - 1 else - bitlen (\<lceil>1 / x\<rceil> - 1))"

definition to_double :: "rat \<Rightarrow> rat" where
  "to_double x =
     (if x = 0 then 0
      else let u = 2 powi (binade \<bar>x\<bar> - 52) in of_int (round_half_even (x / u)) * u)"

definition float_add :: "rat \<Rightarrow> rat \<Rightarrow> rat" where
  "float_add a b = to_double (a + b)"

definition float_sub :: "rat \<Rightarrow> rat \<Rightarrow> rat" where
  "float_sub a b = to_double (a - b)"

definition float_mul :: "rat \<Rightarrow> rat \<Rightarrow> rat" where
  "float_mul a b = to_double (a * b)"

text \<open>\<open>int * float\<close> converts the integer to a float first.\<close>

definition float_of_int :: "int \<Rightarrow> rat" where
  "float_of_int n = to_double (of_int n)"

text \<open>
  \<open>round(x, ndigits)\<close> on a float: the exact value of \<open>x\<close> is rounded half-even to
  \<open>ndigits\<close> decimal places, and the decimal result is converted back to the nearest
  float.
\<close>

definition py_round :: "rat \<Rightarrow> nat \<Rightarrow> rat" where
  "py_round x ndigits =
     to_double (of_int (round_half_even (x * 10 ^ ndigits)) / 10 ^ ndigits)"

text \<open>\<open>int(x)\<close> on a float truncates towards zero.\<close>

definition py_int :: "rat \<Rightarrow> int" where
  "py_int x = (if 0 \<le> x then \<lfloor>x\<rfloor> else \<lceil>x\<rceil>)"

subsection \<open>Strings\<close>

text \<open>
  Column names are byte strings; \<open>str.lower\<close> is modelled on the ASCII letters and
  leaves every other byte unchanged.
\<close>

definition lower_char :: "char \<Rightarrow> char" where
  "lower_char ch =
     (if (65::nat) \<le> of_char ch \<and> of_char ch \<le> (90::nat)
      then char_of (of_char ch + (32::nat)) else ch)"

definition lower :: "string \<Rightarrow> string" where
  "lower s = map lower_char s"

subsection \<open>Exceptions and effects\<close>

text \<open>
  Every exception of the scripts is caught by \<open>except Exception\<close> or not at all; the
  only thing the code ever reads from one is \<open>str(e)\<close>.
\<close>

datatype py_exception = TypeError string | Exception string

fun str :: "py_exception \<Rightarrow> string" where
  "str (TypeError m) = m"
| "str (Exception m) = m"

text \<open>
  A call into the validation framework or the database runs on the state \<open>'c\<close> of the
  outside world (the framework's project directory, the database) and either returns a
  value or raises; the state after the call is kept in both cases.
\<close>

type_synonym ('c, 'a) action = "'c \<Rightarrow> (py_exception + 'a) \<times> 'c"

section \<open>Column statistics and rules\<close>

text \<open>
  The dictionary built by \<open>get_column_stats\<close> for one column.  For a numeric column
  the keys \<open>min\<close>, \<open>max\<close> and \<open>avg\<close> hold a float or \<open>None\<close>; for any other column
  they are absent, which \<open>stat.get\<close> reads as \<open>None\<close> too.  \<open>COUNT\<close> results are
  integers; \<open>SUM(CASE ...)\<close> is \<open>None\<close> on a table without rows.  The fields
  \<open>min_val\<close>, \<open>max_val\<close> and \<open>avg_val\<close> are the keys \<open>min\<close>, \<open>max\<close> and \<open>avg\<close>.
\<close>

record stat =
  column :: string
  data_type :: string
  is_nullable :: bool
  is_numeric :: bool
  min_val :: "rat option"
  max_val :: "rat option"
  avg_val :: "rat option"
  total_count :: int
  null_count :: "int option"
  distinct_count :: int

datatype expectation =
    ExpectColumnValuesToNotBeNull string
  | ExpectColumnValuesToBeBetween string rat rat
  | ExpectColumnValuesToBeUnique string
  | ExpectTableRowCountToBeBetween int int

section \<open>get_column_stats\<close>

text \<open>
  The database is a parameter.  \<open>connect\<close> is \<open>engine.connect()\<close>; the three queries are
  the metadata query and the two aggregate queries for one column, each returning the
  row that \<open>fetchone\<close> or \<open>fetchall\<close> gives, with SQL \<open>NULL\<close> as \<open>None\<close>.
\<close>

record 'c database =
  connect :: "('c, unit) action"
  query_columns :: "string \<Rightarrow> ('c, (string \<times> string \<times> string) list) action"
  query_numeric ::
    "string \<Rightarrow> string \<Rightarrow> ('c, rat option \<times> rat option \<times> rat option \<times> int \<times> int option \<times> int) action"
  query_basic :: "string \<Rightarrow> string \<Rightarrow> ('c, int \<times> int option \<times> int) action"

definition numeric_types :: "string list" where
  "numeric_types =
     [''integer'', ''smallint'', ''bigint'', ''numeric'', ''real'', ''double precision'']"

text \<open>\<open>float(x) if x is not None else None\<close>\<close>

definition py_float :: "rat option \<Rightarrow> rat option" where
  "py_float x = map_option to_double x"

definition column_stat ::
  "'c database \<Rightarrow> string \<Rightarrow> string \<times> string \<times> string \<Rightarrow> ('c, stat) action" where
  "column_stat db table_name col c =
     (case col of (col_name, dtype, nullable) \<Rightarrow>
        if dtype \<in> set numeric_types then
          (case query_numeric db table_name col_name c of
             (Inl e, c') \<Rightarrow> (Inl e, c')
           | (Inr (r0, r1, r2, r3, r4, r5), c') \<Rightarrow>
               (Inr \<lparr>column = col_name, data_type = dtype, is_nullable = (nullable = ''YES''),
                     is_numeric = True, min_val = py_float r0, max_val = py_float r1,
                     avg_val = py_float r2, total_count = r3, null_count = r4,
                     distinct_count = r5\<rparr>, c'))
        else
          (case query_basic db table_name col_name c of
             (Inl e, c') \<Rightarrow> (Inl e, c')
           | (Inr (r0, r1, r2), c') \<Rightarrow>
               (Inr \<lparr>column = col_name, data_type = dtype, is_nullable = (nullable = ''YES''),
                     is_numeric = False, min_val = None, max_val = None, avg_val = None,
                     total_count = r0, null_count = r1, distinct_count = r2\<rparr>, c')))"

fun columns_loop ::
  "'c database \<Rightarrow> string \<Rightarrow> (string \<times> string \<times> string) list \<Rightarrow> stat list
     \<Rightarrow> ('c, stat list) action" where
  "columns_loop db table_name [] stats c = (Inr stats, c)"
| "columns_loop db table_name (col # cols) stats c =
     (case column_stat db table_name col c of
        (Inl e, c') \<Rightarrow> (Inl e, c')
      | (Inr st, c') \<Rightarrow> columns_loop db table_name cols (stats @ [st]) c')"

definition get_column_stats :: "'c database \<Rightarrow> string \<Rightarrow> ('c, stat list) action" where
  "get_column_stats db table_name c =
     (case connect db c of
        (Inl e, c1) \<Rightarrow> (Inl e, c1)
      | (Inr _, c1) \<Rightarrow>
          (case query_columns db table_name c1 of
             (Inl e, c2) \<Rightarrow> (Inl e, c2)
           | (Inr columns, c2) \<Rightarrow> columns_loop db table_name columns [] c2))"

section \<open>generate_expectations_from_stats\<close>

text \<open>
  \<open>suite.add_expectation(...)\<close> belongs to the framework and is a parameter of the model:
  \<open>add_expectation suite e\<close> builds the expectation \<open>e\<close> and adds it to the suite object
  \<open>suite\<close>.  Each call of the source sits in
  \<^verbatim>\<open>try: suite.add_expectation(...); expectations_added += 1
except Exception: pass\<close>
\<close>

definition try_add ::
  "('o \<Rightarrow> expectation \<Rightarrow> ('c, unit) action) \<Rightarrow> 'o \<Rightarrow> expectation \<Rightarrow> 'c \<times> nat \<Rightarrow> 'c \<times> nat" where
  "try_add add_expectation suite e cn =
     (case add_expectation suite e (fst cn) of
        (Inr _, c') \<Rightarrow> (c', snd cn + 1)
      | (Inl _, c') \<Rightarrow> (c', snd cn))"

text \<open>Step 1 of the loop body: the not-null rule.\<close>

definition not_null_step ::
  "('o \<Rightarrow> expectation \<Rightarrow> ('c, unit) action) \<Rightarrow> 'o \<Rightarrow> stat \<Rightarrow> 'c \<times> nat \<Rightarrow> 'c \<times> nat" where
  "not_null_step add_expectation suite st cn =
     (if null_count st = Some 0
      then try_add add_expectation suite (ExpectColumnValuesToNotBeNull (column st)) cn
      else cn)"

text \<open>
  Step 2: the range rule.  When \<open>min\<close> is a float and \<open>max\<close> is \<open>None\<close>, the comparison
  \<open>max_val != min_val\<close> is true and \<open>max_val - min_val\<close> raises \<open>TypeError\<close> outside
  every \<open>try\<close>.
\<close>

definition range_step ::
  "('o \<Rightarrow> expectation \<Rightarrow> ('c, unit) action) \<Rightarrow> 'o \<Rightarrow> stat \<Rightarrow> 'c \<times> nat
     \<Rightarrow> py_exception + 'c \<times> nat" where
  "range_step add_expectation suite st cn =
     (if is_numeric st \<and> min_val st \<noteq> None then
        (case (min_val st, max_val st) of
           (Some mn, Some mx) \<Rightarrow>
             (let range_size =
                    (if mx \<noteq> mn then float_sub mx mn
                     else float_mul \<bar>mx\<bar> (to_double (1 / 10)));
                  margin = float_mul range_size (to_double (1 / 10));
                  expected_min = float_sub mn margin;
                  expected_max = float_add mx margin
              in Inr (try_add add_expectation suite
                       (ExpectColumnValuesToBeBetween (column st)
                          (py_round expected_min 4) (py_round expected_max 4)) cn))
         | _ \<Rightarrow> Inl (TypeError ''unsupported operand type(s) for -''))
      else Inr cn)"

text \<open>Step 3: the uniqueness rule, for a column whose name looks like a key.\<close>

definition is_id_name :: "string \<Rightarrow> bool" where
  "is_id_name col = (sublist ''_id'' (lower col) \<or> suffix ''id'' (lower col))"

definition unique_step ::
  "('o \<Rightarrow> expectation \<Rightarrow> ('c, unit) action) \<Rightarrow> 'o \<Rightarrow> stat \<Rightarrow> 'c \<times> nat \<Rightarrow> 'c \<times> nat" where
  "unique_step add_expectation suite st cn =
     (if distinct_count st = total_count st \<and> 0 < total_count st then
        (if is_id_name (column st)
         then try_add add_expectation suite (ExpectColumnValuesToBeUnique (column st)) cn
         else cn)
      else cn)"

text \<open>The body of \<open>for stat in stats\<close>; an exception leaves the loop with the state so far.\<close>

definition stat_body ::
  "('o \<Rightarrow> expectation \<Rightarrow> ('c, unit) action) \<Rightarrow> 'o \<Rightarrow> stat \<Rightarrow> 'c \<times> nat
     \<Rightarrow> (py_exception + nat) \<times> 'c" where
  "stat_body add_expectation suite st cn =
     (let cn1 = not_null_step add_expectation suite st cn
      in case range_step add_expectation suite st cn1 of
           Inl e \<Rightarrow> (Inl e, fst cn1)
         | Inr cn2 \<Rightarrow>
             (let cn3 = unique_step add_expectation suite st cn2
              in (Inr (snd cn3), fst cn3)))"

fun for_stats ::
  "('o \<Rightarrow> expectation \<Rightarrow> ('c, unit) action) \<Rightarrow> 'o \<Rightarrow> stat list \<Rightarrow> 'c \<times> nat
     \<Rightarrow> (py_exception + nat) \<times> 'c" where
  "for_stats add_expectation suite [] cn = (Inr (snd cn), fst cn)"
| "for_stats add_expectation suite (st # sts) cn =
     (case stat_body add_expectation suite st cn of
        (Inl e, c') \<Rightarrow> (Inl e, c')
      | (Inr n', c') \<Rightarrow> for_stats add_expectation suite sts (c', n'))"

text \<open>
  Step 4, after the loop: the row-count rule, when \<open>stats\<close> is not empty and the first
  record's \<open>total_count\<close> is truthy (not zero).
\<close>

definition row_count_step ::
  "('o \<Rightarrow> expectation \<Rightarrow> ('c, unit) action) \<Rightarrow> 'o \<Rightarrow> stat list \<Rightarrow> 'c \<times> nat \<Rightarrow> 'c \<times> nat" where
  "row_count_step add_expectation suite stats cn =
     (case stats of
        [] \<Rightarrow> cn
      | st0 # _ \<Rightarrow>
          (if total_count st0 \<noteq> 0 then
             (let row_count = total_count st0;
                  min_rows = py_int (float_mul (float_of_int row_count) (to_double (8 / 10)));
                  max_rows = py_int (float_mul (float_of_int row_count) (to_double (12 / 10)))
              in try_add add_expectation suite
                   (ExpectTableRowCountToBeBetween min_rows max_rows) cn)
           else cn))"

text \<open>
  The function returns \<open>expectations_added\<close>; the suite it was given has been changed in
  place, which is the state of the result.  The parameter \<open>table_name\<close> is not used by
  the source.
\<close>

definition generate_expectations_from_stats ::
  "('o \<Rightarrow> expectation \<Rightarrow> ('c, unit) action) \<Rightarrow> 'o \<Rightarrow> stat list \<Rightarrow> ('c, nat) action"
  where
  "generate_expectations_from_stats add_expectation suite stats c =
     (case for_stats add_expectation suite stats (c, 0) of
        (Inl e, c') \<Rightarrow> (Inl e, c')
      | (Inr n, c') \<Rightarrow>
          (let cn = row_count_step add_expectation suite stats (c', n)
           in (Inr (snd cn), fst cn)))"

section \<open>auto_profile_table and the profiler's main\<close>

text \<open>
  The calls into the framework's context: \<open>context.suites.add(gx.ExpectationSuite(name))\<close>,
  \<open>context.suites.delete(name)\<close>, \<open>suite.add_expectation\<close>, \<open>context.suites.all()\<close> and
  \<open>gx.get_context\<close>.
\<close>

record ('c, 'o) suites_api =
  get_context :: "('c, unit) action"
  suites_add :: "string \<Rightarrow> ('c, 'o) action"
  suites_delete :: "string \<Rightarrow> ('c, unit) action"
  suite_add_expectation :: "'o \<Rightarrow> expectation \<Rightarrow> ('c, unit) action"
  suites_all :: "('c, unit) action"

text \<open>
  Of the console output, the model keeps the line that opens the profiling of a table
  and the line that reports its failure.  The other \<open>print\<close> calls cannot raise, but for
  the statistics line of a numeric column, which formats \<open>min\<close> and \<open>max\<close> with
  \<open>:.2f\<close> and raises \<open>TypeError\<close> on \<open>None\<close>.
\<close>

datatype event = AutoProfiling string | ErrorProfiling string string

definition show_stats :: "stat list \<Rightarrow> py_exception + unit" where
  "show_stats stats =
     (if \<exists>st \<in> set stats. is_numeric st \<and> (min_val st = None \<or> max_val st = None)
      then Inl (TypeError ''unsupported format string passed to NoneType.__format__'')
      else Inr ())"

text \<open>The \<open>try\<close> block that creates the suite, with its handler.\<close>

definition create_suite :: "('c, 'o) suites_api \<Rightarrow> string \<Rightarrow> ('c, 'o) action" where
  "create_suite api suite_name c =
     (case suites_add api suite_name c of
        (Inr suite, c1) \<Rightarrow> (Inr suite, c1)
      | (Inl e, c1) \<Rightarrow>
          if sublist ''already exists'' (lower (str e)) then
            (case suites_delete api suite_name c1 of
               (Inl e', c2) \<Rightarrow> (Inl e', c2)
             | (Inr _, c2) \<Rightarrow> suites_add api suite_name c2)
          else (Inl e, c1))"

definition auto_profile_table ::
  "'c database \<Rightarrow> ('c, 'o) suites_api \<Rightarrow> string \<Rightarrow> string \<Rightarrow> string \<Rightarrow> string
     \<Rightarrow> ('c \<times> event list, 'o) action" where
  "auto_profile_table db api datasource_name table_name asset_name suite_name w =
     (let out = snd w @ [AutoProfiling table_name]
      in case get_column_stats db table_name (fst w) of
           (Inl e, c1) \<Rightarrow> (Inl e, (c1, out))
         | (Inr stats, c1) \<Rightarrow>
             (case show_stats stats of
                Inl e \<Rightarrow> (Inl e, (c1, out))
              | Inr _ \<Rightarrow>
                  (case create_suite api suite_name c1 of
                     (Inl e, c2) \<Rightarrow> (Inl e, (c2, out))
                   | (Inr suite, c2) \<Rightarrow>
                       (case generate_expectations_from_stats (suite_add_expectation api)
                               suite stats c2 of
                          (Inl e, c3) \<Rightarrow> (Inl e, (c3, out))
                        | (Inr added, c3) \<Rightarrow> (Inr suite, (c3, out))))))"

definition profiler_tables :: "(string \<times> string \<times> string) list" where
  "profiler_tables =
     [(''warehouse'', ''warehouse_asset'', ''warehouse_auto''),
      (''customer'', ''customer_asset'', ''customer_auto''),
      (''orders'', ''orders_asset'', ''orders_auto''),
      (''order_line'', ''order_line_asset'', ''order_line_auto''),
      (''item'', ''item_asset'', ''item_auto'')]"

text \<open>
  The loop of \<open>main\<close>: \<open>try: auto_profile_table(...)\<close>,
  \<open>except Exception as e: print(f"  Error profiling {table_name}: {e}")\<close>.
\<close>

fun profile_tables ::
  "'c database \<Rightarrow> ('c, 'o) suites_api \<Rightarrow> (string \<times> string \<times> string) list
     \<Rightarrow> 'c \<times> event list \<Rightarrow> 'c \<times> event list" where
  "profile_tables db api [] w = w"
| "profile_tables db api (t # ts) w =
     (case t of (table_name, asset_name, suite_name) \<Rightarrow>
        (case auto_profile_table db api ''tpcc_postgres'' table_name asset_name suite_name w of
           (Inl e, w') \<Rightarrow>
             profile_tables db api ts (fst w', snd w' @ [ErrorProfiling table_name (str e)])
         | (Inr _, w') \<Rightarrow> profile_tables db api ts w'))"

definition profile_data_main ::
  "'c database \<Rightarrow> ('c, 'o) suites_api \<Rightarrow> ('c \<times> event list, unit) action" where
  "profile_data_main db api w =
     (case get_context api (fst w) of
        (Inl e, c1) \<Rightarrow> (Inl e, (c1, snd w))
      | (Inr _, c1) \<Rightarrow>
          (let w2 = profile_tables db api profiler_tables (c1, snd w)
           in case suites_all api (fst w2) of
                (Inl e, c3) \<Rightarrow> (Inl e, (c3, snd w2))
              | (Inr _, c3) \<Rightarrow> (Inr (), (c3, snd w2))))"

section \<open>run_validation and the validator's main\<close>










section \<open>The rules a run emits\<close>

text \<open>
  To observe which rules a run emits, \<open>add_expectation\<close> is instantiated with a suite
  that accepts every rule and keeps them in order: the state is the list of rules added
  so far.  \<open>generate_state\<close> below shows that for any other framework behaviour the
  calls of \<open>add_expectation\<close> are exactly these rules, in this order.
\<close>

definition record_add :: "unit \<Rightarrow> expectation \<Rightarrow> (expectation list, unit) action" where
  "record_add suite e c = (Inr (), c @ [e])"

definition emitted :: "stat list \<Rightarrow> expectation list" where
  "emitted stats = snd (generate_expectations_from_stats record_add () stats [])"

text \<open>The rules of one record, and the row-count rule, as the source model emits them.\<close>

definition column_rules :: "stat \<Rightarrow> expectation list" where
  "column_rules st = snd (stat_body record_add () st ([], 0))"

definition row_count_rules :: "stat list \<Rightarrow> expectation list" where
  "row_count_rules stats = fst (row_count_step record_add () stats ([], 0))"

text \<open>The state after calling \<open>add_expectation\<close> on each rule in turn, whatever each call returns.\<close>

definition run_adds ::
  "('o \<Rightarrow> expectation \<Rightarrow> ('c, unit) action) \<Rightarrow> 'o \<Rightarrow> expectation list \<Rightarrow> 'c \<Rightarrow> 'c" where
  "run_adds add_expectation suite es c = fold (\<lambda>e c'. snd (add_expectation suite e c')) es c"

text \<open>
  The four kinds of rules.
\<close>

fun is_not_null_rule :: "expectation \<Rightarrow> bool" where
  "is_not_null_rule (ExpectColumnValuesToNotBeNull _) = True"
| "is_not_null_rule _ = False"

fun is_range_rule :: "expectation \<Rightarrow> bool" where
  "is_range_rule (ExpectColumnValuesToBeBetween _ _ _) = True"
| "is_range_rule _ = False"

fun is_unique_rule :: "expectation \<Rightarrow> bool" where
  "is_unique_rule (ExpectColumnValuesToBeUnique _) = True"
| "is_unique_rule _ = False"

fun is_row_count_rule :: "expectation \<Rightarrow> bool" where
  "is_row_count_rule (ExpectTableRowCountToBeBetween _ _) = True"
| "is_row_count_rule _ = False"

text \<open>
  \<open>MIN\<close> and \<open>MAX\<close> of one SQL query are null together, so a record of
  \<open>get_column_stats\<close> with a minimum has a maximum (\<open>get_column_stats_ok\<close>).  On a
  record without this property the loop raises \<open>TypeError\<close> (\<open>generate_isl\<close>).
\<close>

definition stat_ok :: "stat \<Rightarrow> bool" where
  "stat_ok st = (is_numeric st \<and> min_val st \<noteq> None \<longrightarrow> max_val st \<noteq> None)"

text \<open>
  The record of a column of a table without rows: the aggregates are \<open>None\<close> and the
  row count is zero.
\<close>

definition zero_row_stat :: "stat \<Rightarrow> bool" where
  "zero_row_stat st =
     (min_val st = None \<and> max_val st = None \<and> avg_val st = None \<and> null_count st = None
      \<and> total_count st = 0)"

text \<open>
  Two lists are equal up to the \<open>is_nullable\<close> flags when they are equal after every
  flag has been set to the same value.
\<close>

definition declared_not_null :: "stat \<Rightarrow> stat" where
  "declared_not_null st = st\<lparr>is_nullable := False\<rparr>"

text \<open>
  The range rule in the words of the specification: for a numeric column with a minimum,
  the span is \<open>max - min\<close>, or 10% of \<open>|max|\<close> when \<open>max = min\<close>; the margin is 10% of
  the span; the rule is over \<open>[min - margin, max + margin]\<close>, each bound rounded to four
  decimal places.  The arithmetic is the float arithmetic of the source.
\<close>

definition spec_range_rules :: "stat \<Rightarrow> expectation list" where
  "spec_range_rules st =
     (case (min_val st, max_val st) of
        (Some mn, Some mx) \<Rightarrow>
          if is_numeric st then
            (let span = (if mn \<noteq> mx then float_sub mx mn
                         else float_mul (to_double (1 / 10)) \<bar>mx\<bar>);
                 margin = float_mul (to_double (1 / 10)) span
             in [ExpectColumnValuesToBeBetween (column st)
                   (py_round (float_sub mn margin) 4) (py_round (float_add mx margin) 4)])
          else []
      | _ \<Rightarrow> [])"

section \<open>Example data\<close>

text \<open>
  Records of the tables \<open>item\<close>, \<open>order_line\<close>, \<open>customer\<close>, \<open>stock\<close> and of an empty
  \<open>history\<close> table.
\<close>

definition ex_i_id :: stat where
  "ex_i_id = \<lparr>column = ''i_id'', data_type = ''integer'', is_nullable = False,
     is_numeric = True, min_val = Some 1, max_val = Some 100000, avg_val = Some (100001 / 2),
     total_count = 100000, null_count = Some 0, distinct_count = 100000\<rparr>"

definition ex_i_price :: stat where
  "ex_i_price = \<lparr>column = ''i_price'', data_type = ''numeric'', is_nullable = True,
     is_numeric = True, min_val = Some 1, max_val = Some 100, avg_val = Some (101 / 2),
     total_count = 100000, null_count = Some 0, distinct_count = 9900\<rparr>"

definition ex_i_data :: stat where
  "ex_i_data = \<lparr>column = ''i_data'', data_type = ''character varying'', is_nullable = True,
     is_numeric = False, min_val = None, max_val = None, avg_val = None,
     total_count = 100000, null_count = Some 7, distinct_count = 5000\<rparr>"

definition ex_ol_o_id :: stat where
  "ex_ol_o_id = \<lparr>column = ''ol_o_id'', data_type = ''integer'', is_nullable = False,
     is_numeric = True, min_val = Some 1, max_val = Some 1000, avg_val = Some (1001 / 2),
     total_count = 1000, null_count = Some 0, distinct_count = 1000\<rparr>"

definition ex_ol_amount :: stat where
  "ex_ol_amount = \<lparr>column = ''ol_amount'', data_type = ''numeric'', is_nullable = True,
     is_numeric = True, min_val = Some 1, max_val = Some 1000, avg_val = Some (1001 / 2),
     total_count = 1000, null_count = Some 0, distinct_count = 1000\<rparr>"

definition ex_c_data :: stat where
  "ex_c_data = \<lparr>column = ''c_data'', data_type = ''text'', is_nullable = True,
     is_numeric = False, min_val = None, max_val = None, avg_val = None,
     total_count = 10, null_count = Some 0, distinct_count = 10\<rparr>"

definition ex_c_since :: stat where
  "ex_c_since = \<lparr>column = ''c_since'', data_type = ''timestamp without time zone'',
     is_nullable = True, is_numeric = False, min_val = None, max_val = None, avg_val = None,
     total_count = 0, null_count = None, distinct_count = 0\<rparr>"

definition ex_s_quantity :: stat where
  "ex_s_quantity = \<lparr>column = ''s_quantity'', data_type = ''integer'', is_nullable = True,
     is_numeric = True, min_val = Some 100, max_val = Some 100, avg_val = Some 100,
     total_count = 5, null_count = Some 0, distinct_count = 1\<rparr>"

definition ex_empty_id :: stat where
  "ex_empty_id = \<lparr>column = ''h_c_id'', data_type = ''integer'', is_nullable = True,
     is_numeric = True, min_val = None, max_val = None, avg_val = None,
     total_count = 0, null_count = None, distinct_count = 0\<rparr>"

definition ex_empty_data :: stat where
  "ex_empty_data = \<lparr>column = ''h_data'', data_type = ''character varying'', is_nullable = True,
     is_numeric = False, min_val = None, max_val = None, avg_val = None,
     total_count = 0, null_count = None, distinct_count = 0\<rparr>"

text \<open>
  A framework that keeps the suites in a map from names to rule lists, for the examples:
  adding a suite under a name in use fails with the framework's ``already exists''
  message, deleting removes the entry, and a suite object is its name.
\<close>

definition store_api :: "(string \<rightharpoonup> expectation list, string) suites_api" where
  "store_api =
     \<lparr>get_context = (\<lambda>c. (Inr (), c)),
      suites_add = (\<lambda>name c.
        if c name \<noteq> None
        then (Inl (Exception (''An ExpectationSuite named '' @ name @ '' already exists.'')), c)
        else (Inr name, c(name \<mapsto> []))),
      suites_delete = (\<lambda>name c.
        if c name = None then (Inl (Exception ''ExpectationSuite not found''), c)
        else (Inr (), c(name := None))),
      suite_add_expectation = (\<lambda>suite e c.
        case c suite of
          None \<Rightarrow> (Inl (Exception ''ExpectationSuite not found''), c)
        | Some es \<Rightarrow> (Inr (), c(suite \<mapsto> es @ [e]))),
      suites_all = (\<lambda>c. (Inr (), c))\<rparr>"

text \<open>The same framework with a store that refuses every new suite.\<close>

definition deny_api :: "(string \<rightharpoonup> expectation list, string) suites_api" where
  "deny_api = store_api\<lparr>suites_add := (\<lambda>name c. (Inl (Exception ''Permission denied''), c))\<rparr>"

text \<open>
  A database whose table \<open>item\<close> has the columns \<open>i_id\<close> and \<open>i_data\<close> with the
  statistics of \<open>ex_i_id\<close> and \<open>ex_i_data\<close>.
\<close>

definition ex_db :: "(string \<rightharpoonup> expectation list) database" where
  "ex_db =
     \<lparr>connect = (\<lambda>c. (Inr (), c)),
      query_columns = (\<lambda>t c.
        (Inr (if t = ''item''
              then [(''i_id'', ''integer'', ''NO''), (''i_data'', ''character varying'', ''YES'')]
              else []), c)),
      query_numeric = (\<lambda>t col c.
        (Inr (Some 1, Some 100000, Some (100001 / 2), 100000, Some 0, 100000), c)),
      query_basic = (\<lambda>t col c. (Inr (100000, Some 7, 5000), c))\<rparr>"

text \<open>
  A project in which the suite \<open>item_auto\<close> of an earlier run exists.
\<close>

definition ex_store :: "string \<rightharpoonup> expectation list" where
  "ex_store = [''item_auto'' \<mapsto> [ExpectColumnValuesToBeUnique ''i_name'']]"


section \<open>Properties of the float arithmetic\<close>

text \<open>
  The binade of a positive number, the relative error of \<open>to_double\<close>, the integers
  it keeps, and the two products of the row-count rule.
\<close>

lemma binade_lower:
  assumes "0 < x"
  shows "2 powi (binade x) \<le> x"
proof (cases "1 \<le> x")
  case True
  then have n: "0 < \<lfloor>x\<rfloor>" by simp
  from bitlen_bounds [OF n] have b: "2 ^ nat (bitlen \<lfloor>x\<rfloor> - 1) \<le> \<lfloor>x\<rfloor>" by simp
  have ge: "0 \<le> bitlen \<lfloor>x\<rfloor> - 1"
    using n by (simp add: bitlen_alt_def)
  have "(2::rat) powi (bitlen \<lfloor>x\<rfloor> - 1) = of_int (2 ^ nat (bitlen \<lfloor>x\<rfloor> - 1))"
    using ge by (simp add: power_int_nonneg_exp)
  also have "\<dots> \<le> of_int \<lfloor>x\<rfloor>" using b by (simp only: of_int_le_iff)
  also have "\<dots> \<le> x" by simp
  finally show ?thesis using True by (simp add: binade_def)
next
  case False
  define m where "m = \<lceil>1 / x\<rceil>"
  define k where "k = bitlen (m - 1)"
  have x1: "1 < 1 / x" using assms False by simp
  then have m2: "0 < m - 1" unfolding m_def by (simp add: less_ceiling_iff)
  from bitlen_bounds [OF m2] have b: "m - 1 < 2 ^ nat k" unfolding k_def by simp
  then have "m \<le> 2 ^ nat k" by simp
  then have "of_int m \<le> (of_int (2 ^ nat k) :: rat)" by (simp only: of_int_le_iff)
  then have "of_int m \<le> (2 ^ nat k :: rat)" by simp
  moreover have "1 / x \<le> of_int m" unfolding m_def by simp
  ultimately have le: "1 / x \<le> 2 ^ nat k" by (rule order.trans [rotated])
  have k0: "0 \<le> k" unfolding k_def by (rule bitlen_nonneg)
  have "(2::rat) powi (- k) = 1 / 2 ^ nat k"
    using k0 by (simp add: power_int_minus_divide power_int_nonneg_exp)
  also have "\<dots> \<le> x"
    using le assms by (simp add: field_simps)
  finally show ?thesis using False by (simp add: binade_def m_def k_def)
qed

lemma binade_upper:
  assumes "0 < x"
  shows "x < 2 powi (binade x + 1)"
proof (cases "1 \<le> x")
  case True
  then have n: "0 < \<lfloor>x\<rfloor>" by simp
  from bitlen_bounds [OF n] have b: "\<lfloor>x\<rfloor> < 2 ^ nat (bitlen \<lfloor>x\<rfloor>)" by simp
  then have "\<lfloor>x\<rfloor> + 1 \<le> 2 ^ nat (bitlen \<lfloor>x\<rfloor>)" by simp
  then have "(of_int (\<lfloor>x\<rfloor> + 1) :: rat) \<le> of_int (2 ^ nat (bitlen \<lfloor>x\<rfloor>))"
    by (simp only: of_int_le_iff)
  then have "(of_int (\<lfloor>x\<rfloor> + 1) :: rat) \<le> 2 ^ nat (bitlen \<lfloor>x\<rfloor>)" by simp
  moreover have "x < of_int (\<lfloor>x\<rfloor> + 1)" by linarith
  ultimately have "x < 2 ^ nat (bitlen \<lfloor>x\<rfloor>)" by (rule less_le_trans [rotated])
  moreover have "(2::rat) powi (bitlen \<lfloor>x\<rfloor>) = 2 ^ nat (bitlen \<lfloor>x\<rfloor>)"
    by (simp add: power_int_nonneg_exp bitlen_nonneg)
  ultimately show ?thesis using True by (simp add: binade_def)
next
  case False
  define m where "m = \<lceil>1 / x\<rceil>"
  define k where "k = bitlen (m - 1)"
  have x1: "1 < 1 / x" using assms False by simp
  then have m2: "0 < m - 1" unfolding m_def by (simp add: less_ceiling_iff)
  from bitlen_bounds [OF m2] have b: "2 ^ nat (k - 1) \<le> m - 1" unfolding k_def by simp
  then have "(of_int (2 ^ nat (k - 1)) :: rat) \<le> of_int (m - 1)" by (simp only: of_int_le_iff)
  then have "(2 ^ nat (k - 1) :: rat) \<le> of_int (m - 1)" by simp
  moreover have "of_int (m - 1) < 1 / x" unfolding m_def by linarith
  ultimately have lt: "2 ^ nat (k - 1) < 1 / x" by (rule le_less_trans)
  have k1: "1 \<le> k" unfolding k_def using m2 by (simp add: bitlen_alt_def)
  have "x < 1 / 2 ^ nat (k - 1)"
    using lt assms by (simp add: field_simps)
  also have "\<dots> = (2::rat) powi (- k + 1)"
  proof -
    have "- k + 1 = - (k - 1)" by simp
    then show ?thesis using k1 by (simp only: power_int_minus_divide power_int_nonneg_exp)
  qed
  finally show ?thesis using False by (simp add: binade_def m_def k_def)
qed

lemma round_half_even_close: "\<bar>of_int (round_half_even z) - z\<bar> \<le> 1 / 2"
proof -
  define f where "f = \<lfloor>z\<rfloor>"
  have b: "of_int f \<le> z" "z < of_int f + 1" unfolding f_def by linarith+
  have r: "round_half_even z =
             (if z - of_int f < 1 / 2 then f else if 1 / 2 < z - of_int f then f + 1
              else if even f then f else f + 1)"
    by (simp add: round_half_even_def f_def Let_def)
  show ?thesis
  proof (cases "z - of_int f < 1 / 2")
    case True
    then have "round_half_even z = f" using r by simp
    then show ?thesis using True b by simp
  next
    case False
    then have "round_half_even z = f \<and> z - of_int f = 1 / 2 \<or> round_half_even z = f + 1"
      using r by auto
    then show ?thesis using False b by auto
  qed
qed

lemma round_half_even_nearest:
  assumes "\<bar>z - of_int k\<bar> < 1 / 2"
  shows "round_half_even z = k"
proof -
  have "\<bar>(of_int (round_half_even z) :: rat) - of_int k\<bar> < 1"
    using round_half_even_close [of z] assms by linarith
  then have "\<bar>round_half_even z - k\<bar> < 1"
    by (metis of_int_1 of_int_abs of_int_diff of_int_less_iff)
  then show ?thesis by simp
qed

lemma round_half_even_ge:
  assumes "of_int a \<le> z"
  shows "a \<le> round_half_even z"
proof -
  have "a \<le> \<lfloor>z\<rfloor>" using assms by (simp add: le_floor_iff)
  then show ?thesis by (auto simp: round_half_even_def Let_def)
qed

lemma to_double_error: "\<bar>to_double x - x\<bar> \<le> \<bar>x\<bar> / 2 ^ 53"
proof (cases "x = 0")
  case True
  then show ?thesis by (simp add: to_double_def)
next
  case False
  define e where "e = binade \<bar>x\<bar>"
  define u :: rat where "u = 2 powi (e - 52)"
  have u0: "0 < u" unfolding u_def by (simp add: zero_less_power_int)
  have ax: "0 < \<bar>x\<bar>" using False by simp
  have "u = 2 powi e / 2 ^ 52"
    unfolding u_def by (simp add: power_int_diff)
  moreover have "2 powi e \<le> \<bar>x\<bar>" unfolding e_def using ax by (rule binade_lower)
  ultimately have ux: "u \<le> \<bar>x\<bar> / 2 ^ 52" by (simp add: divide_right_mono)
  have td: "to_double x = of_int (round_half_even (x / u)) * u"
    using False by (simp add: to_double_def Let_def u_def e_def)
  have "to_double x - x = (of_int (round_half_even (x / u)) - x / u) * u"
    using u0 by (simp add: td field_simps)
  then have "\<bar>to_double x - x\<bar> = \<bar>of_int (round_half_even (x / u)) - x / u\<bar> * u"
    using u0 by (simp add: abs_mult)
  also have "\<dots> \<le> 1 / 2 * u"
    using round_half_even_close [of "x / u"] u0 by (intro mult_right_mono) simp_all
  also have "\<dots> \<le> 1 / 2 * (\<bar>x\<bar> / 2 ^ 52)"
    using ux by simp
  finally show ?thesis by simp
qed

lemma to_double_bounds:
  "x - \<bar>x\<bar> / 2 ^ 53 \<le> to_double x" "to_double x \<le> x + \<bar>x\<bar> / 2 ^ 53"
  using to_double_error [of x] by linarith+

lemma to_double_scaled:
  assumes "0 < y" "y < 2 ^ 53"
  obtains n :: nat where
    "to_double y = of_int (round_half_even (y * 2 ^ n)) / 2 ^ n"
    "y * 2 ^ n < 2 ^ 53"
proof -
  define e where "e = binade y"
  have lo: "2 powi e \<le> y" and hi: "y < 2 powi (e + 1)"
    unfolding e_def using assms(1) by (rule binade_lower, rule binade_upper)
  have "e \<le> 52"
  proof (rule ccontr)
    assume "\<not> e \<le> 52"
    then have "53 \<le> e" by simp
    then have "(2::rat) powi 53 \<le> 2 powi e" by (intro power_int_increasing) simp_all
    with lo assms(2) show False by simp
  qed
  define n where "n = nat (52 - e)"
  have en: "e - 52 = - int n" unfolding n_def using \<open>e \<le> 52\<close> by simp
  have u: "(2::rat) powi (e - 52) = 1 / 2 ^ n"
    unfolding en by (simp add: power_int_minus_divide)
  have y0: "y \<noteq> 0" "\<bar>y\<bar> = y" using assms(1) by simp_all
  have a: "to_double y = of_int (round_half_even (y * 2 ^ n)) / 2 ^ n"
    using y0 by (simp add: to_double_def Let_def e_def [symmetric] u)
  have "e + 1 = 53 - int n" unfolding n_def using \<open>e \<le> 52\<close> by simp
  then have p: "(2::rat) powi (e + 1) = 2 ^ 53 / 2 ^ n"
    by (simp add: power_int_diff)
  have "y * 2 ^ n < 2 powi (e + 1) * 2 ^ n"
    using hi by (rule mult_strict_right_mono) simp
  also have "\<dots> = 2 ^ 53" unfolding p by simp
  finally have b: "y * 2 ^ n < 2 ^ 53" .
  from a b show ?thesis by (rule that)
qed

lemma to_double_ge_int:
  assumes "0 < y" "y < 2 ^ 53" "of_int m \<le> y"
  shows "of_int m \<le> to_double y"
proof -
  obtain n :: nat where
    td: "to_double y = of_int (round_half_even (y * 2 ^ n)) / 2 ^ n"
    using assms(1,2) by (rule to_double_scaled)
  have "(of_int (m * 2 ^ n) :: rat) \<le> y * 2 ^ n"
    using assms(3) by simp
  then have "m * 2 ^ n \<le> round_half_even (y * 2 ^ n)" by (rule round_half_even_ge)
  then have "(of_int (m * 2 ^ n) :: rat) \<le> of_int (round_half_even (y * 2 ^ n))"
    by (simp only: of_int_le_iff)
  then have "(of_int (m * 2 ^ n) :: rat) / 2 ^ n \<le> of_int (round_half_even (y * 2 ^ n)) / 2 ^ n"
    by (rule divide_right_mono) simp
  then show ?thesis by (simp add: td)
qed

lemma to_double_nearest_int:
  assumes "0 < y" "y < 2 ^ 53" "\<bar>y - of_int m\<bar> \<le> y / 2 ^ 54"
  shows "to_double y = of_int m"
proof -
  obtain n :: nat where
    td: "to_double y = of_int (round_half_even (y * 2 ^ n)) / 2 ^ n"
    and b: "y * 2 ^ n < 2 ^ 53"
    using assms(1,2) by (rule to_double_scaled)
  have "\<bar>y * 2 ^ n - of_int (m * 2 ^ n)\<bar> = \<bar>y - of_int m\<bar> * 2 ^ n"
    by (simp add: abs_mult flip: left_diff_distrib)
  also have "\<dots> \<le> y / 2 ^ 54 * 2 ^ n"
    using assms(3) by (rule mult_right_mono) simp
  also have "\<dots> = y * 2 ^ n / 2 ^ 54" by simp
  also have "\<dots> < 2 ^ 53 / 2 ^ 54" using b by (rule divide_strict_right_mono) simp
  finally have "\<bar>y * 2 ^ n - of_int (m * 2 ^ n)\<bar> < 1 / 2" by simp
  then have "round_half_even (y * 2 ^ n) = m * 2 ^ n" by (rule round_half_even_nearest)
  then show ?thesis by (simp add: td)
qed

lemma float_of_int_exact:
  assumes "0 \<le> n" "n < 2 ^ 53"
  shows "float_of_int n = of_int n"
proof (cases "n = 0")
  case True
  then show ?thesis by (simp add: float_of_int_def to_double_def)
next
  case False
  have "(of_int n :: rat) < of_int (2 ^ 53)" using assms(2) by (simp only: of_int_less_iff)
  then have "(of_int n :: rat) < 2 ^ 53" by simp
  moreover have "0 < (of_int n :: rat)" using assms(1) False by simp
  ultimately show ?thesis
    unfolding float_of_int_def by (intro to_double_nearest_int) simp_all
qed

lemma to_double_1_10: "to_double (1 / 10) = 3602879701896397 / 36028797018963968"
  by code_simp

lemma to_double_8_10: "to_double (8 / 10) = 4 / 5 + 1 / (5 * 2 ^ 52)"
proof -
  have "to_double (8 / 10) = 3602879701896397 / 4503599627370496" by code_simp
  then show ?thesis by simp
qed

lemma to_double_12_10: "to_double (12 / 10) = 6 / 5 - 1 / (5 * 2 ^ 52)"
proof -
  have "to_double (12 / 10) = 5404319552844595 / 4503599627370496" by code_simp
  then show ?thesis by simp
qed

lemma py_int_to_double_floor:
  assumes "0 \<le> m" "0 < y" "y < 2 ^ 50" "of_int m \<le> y" "y \<le> of_int m + 17 / 20"
  shows "py_int (to_double y) = m"
proof -
  have y53: "y < 2 ^ 53" using assms(3) by simp
  have lo: "of_int m \<le> to_double y"
    using assms(2) y53 assms(4) by (rule to_double_ge_int)
  have "to_double y \<le> y + \<bar>y\<bar> / 2 ^ 53"
    using to_double_error [of y] by linarith
  also have "\<dots> < y + 1 / 8" using assms(2,3) by simp
  finally have hi: "to_double y < of_int m + 1" using assms(5) by simp
  have "0 \<le> to_double y" using lo assms(1) by (meson of_int_0_le_iff order_trans)
  moreover have "\<lfloor>to_double y\<rfloor> = m" using lo hi by (simp add: floor_unique)
  ultimately show ?thesis by (simp add: py_int_def)
qed

lemma min_rows_floor:
  assumes "0 < n" "n < 2 ^ 50"
  shows "py_int (float_mul (float_of_int n) (to_double (8 / 10))) = \<lfloor>8 / 10 * (of_int n :: rat)\<rfloor>"
proof -
  define m where "m = (4 * n) div 5"
  define r where "r = (4 * n) mod 5"
  define x :: rat where "x = of_int n"
  have nr: "4 * n = 5 * m + r" "0 \<le> r" "r \<le> 4" unfolding m_def r_def by auto
  have x0: "0 < x" and x50: "x < 2 ^ 50"
    using assms unfolding x_def by (simp, metis of_int_less_iff of_int_numeral of_int_power)
  have "(of_int (4 * n) :: rat) = of_int (5 * m + r)" using nr(1) by simp
  then have xm: "4 * x = 5 * of_int m + of_int r" by (simp add: x_def)
  have r4: "(0::rat) \<le> of_int r" "(of_int r :: rat) \<le> 4"
    using nr(2,3) by (simp, metis of_int_le_iff of_int_numeral)
  have fl: "\<lfloor>8 / 10 * x\<rfloor> = m"
    using xm r4 by (intro floor_unique) linarith+
  have m0: "0 \<le> m" unfolding m_def using assms(1) by simp
  have "n < 2 ^ 53" using assms(2) by simp
  then have fi: "float_of_int n = x"
    unfolding x_def using assms(1) by (intro float_of_int_exact) simp_all
  define y where "y = x * (4 / 5 + 1 / (5 * 2 ^ 52))"
  have y: "y = 4 / 5 * x + x / (5 * 2 ^ 52)" unfolding y_def by (simp add: field_simps)
  have e: "0 < x / (5 * 2 ^ 52)" "x / (5 * 2 ^ 52) < 1 / 20" using x0 x50 by simp_all
  have pm: "py_int (to_double y) = m"
  proof (rule py_int_to_double_floor)
    show "0 \<le> m" by (rule m0)
    show "0 < y" using y x0 e by linarith
    have "(1::rat) \<le> 2 ^ 50" by simp
    then show "y < 2 ^ 50" using y x50 e by linarith
    show "of_int m \<le> y" using y xm r4 e by linarith
    show "y \<le> of_int m + 17 / 20" using y xm r4 e by linarith
  qed
  have a: "float_mul (float_of_int n) (to_double (8 / 10)) = to_double y"
    by (simp only: float_mul_def fi to_double_8_10 y_def)
  show ?thesis unfolding a using pm fl by (simp only: x_def)
qed

lemma max_rows_floor:
  assumes "0 < n" "n < 2 ^ 49"
  shows "py_int (float_mul (float_of_int n) (to_double (12 / 10))) = \<lfloor>12 / 10 * (of_int n :: rat)\<rfloor>"
proof -
  define m where "m = (6 * n) div 5"
  define r where "r = (6 * n) mod 5"
  define x :: rat where "x = of_int n"
  have nr: "6 * n = 5 * m + r" "0 \<le> r" "r \<le> 4" unfolding m_def r_def by auto
  have x0: "1 \<le> x" and x49: "x < 2 ^ 49"
    using assms unfolding x_def by (simp, metis of_int_less_iff of_int_numeral of_int_power)
  have "(of_int (6 * n) :: rat) = of_int (5 * m + r)" using nr(1) by simp
  then have xm: "6 * x = 5 * of_int m + of_int r" by (simp add: x_def)
  have r4: "(0::rat) \<le> of_int r" "(of_int r :: rat) \<le> 4"
    using nr(2,3) by (simp, metis of_int_le_iff of_int_numeral)
  have fl: "\<lfloor>12 / 10 * x\<rfloor> = m"
    using xm r4 by (intro floor_unique) linarith+
  have m0: "0 \<le> m" unfolding m_def using assms(1) by simp
  have "n < 2 ^ 53" using assms(2) by simp
  then have fi: "float_of_int n = x"
    unfolding x_def using assms(1) by (intro float_of_int_exact) simp_all
  define y where "y = x * (6 / 5 - 1 / (5 * 2 ^ 52))"
  have y: "y = 6 / 5 * x - x / (5 * 2 ^ 52)" unfolding y_def by (simp add: field_simps)
  have e: "0 < x / (5 * 2 ^ 52)" "x / (5 * 2 ^ 52) < 1 / 20" "x / (5 * 2 ^ 52) \<le> x / 5"
    using x0 x49 by simp_all
  have y0: "0 < y" using y x0 e by linarith
  have "(2::rat) ^ 50 = 2 * 2 ^ 49" by simp
  then have y50: "y < 2 ^ 50" using y x49 x0 e by linarith
  have pm: "py_int (to_double y) = m"
  proof (cases "r = 0")
    case True
    have ym: "of_int m - y = x / (5 * 2 ^ 52)" using y xm True by simp
    have "x / (5 * 2 ^ 52) = (4 / 5 * x) / 2 ^ 54" by simp
    also have "\<dots> \<le> y / 2 ^ 54"
    proof (rule divide_right_mono)
      show "4 / 5 * x \<le> y" using y e x0 by linarith
      show "(0::rat) \<le> 2 ^ 54" by simp
    qed
    finally have "\<bar>y - of_int m\<bar> \<le> y / 2 ^ 54" using ym e(1) by linarith
    moreover have "y < 2 ^ 53" using y50 by simp
    ultimately have "to_double y = of_int m" using y0 by (intro to_double_nearest_int)
    then show ?thesis using m0 by (simp add: py_int_def)
  next
    case False
    then have "1 \<le> r" using nr(2) by simp
    then have r1: "(1::rat) \<le> of_int r" by simp
    show ?thesis
    proof (rule py_int_to_double_floor)
      show "0 \<le> m" by (rule m0)
      show "0 < y" by (rule y0)
      show "y < 2 ^ 50" by (rule y50)
      show "of_int m \<le> y" using y xm r1 e by linarith
      show "y \<le> of_int m + 17 / 20" using y xm r4 e by linarith
    qed
  qed
  have a: "float_mul (float_of_int n) (to_double (12 / 10)) = to_double y"
    by (simp only: float_mul_def fi to_double_12_10 y_def)
  show ?thesis unfolding a using pm fl by (simp only: x_def)
qed

lemma degenerate_margin_close:
  fixes v :: rat
  defines "m \<equiv> float_mul (float_mul \<bar>v\<bar> (to_double (1 / 10))) (to_double (1 / 10))"
  shows "\<bar>m - \<bar>v\<bar> / 100\<bar> \<le> \<bar>v\<bar> / 2 ^ 50"
proof -
  define w where "w = \<bar>v\<bar>"
  define a where "a = to_double (w * (3602879701896397 / 36028797018963968))"
  have w0: "0 \<le> w" unfolding w_def by simp
  have m: "m = to_double (a * (3602879701896397 / 36028797018963968))"
    unfolding m_def a_def w_def float_mul_def to_double_1_10 ..
  have wc: "\<bar>w * (3602879701896397 / 36028797018963968)\<bar> = w * (3602879701896397 / 36028797018963968)"
    using w0 by simp
  have a1: "w * (3602879701896397 / 36028797018963968)
              - w * (3602879701896397 / 36028797018963968) / 2 ^ 53 \<le> a"
    and a2: "a \<le> w * (3602879701896397 / 36028797018963968)
              + w * (3602879701896397 / 36028797018963968) / 2 ^ 53"
    using to_double_bounds [of "w * (3602879701896397 / 36028797018963968)"]
    unfolding a_def wc by simp_all
  have a0: "0 \<le> a" using a1 w0 by simp
  then have ac: "\<bar>a * (3602879701896397 / 36028797018963968)\<bar> = a * (3602879701896397 / 36028797018963968)"
    by simp
  have m1: "a * (3602879701896397 / 36028797018963968)
              - a * (3602879701896397 / 36028797018963968) / 2 ^ 53 \<le> m"
    and m2: "m \<le> a * (3602879701896397 / 36028797018963968)
              + a * (3602879701896397 / 36028797018963968) / 2 ^ 53"
    using to_double_bounds [of "a * (3602879701896397 / 36028797018963968)"]
    unfolding m ac by simp_all
  have "m - w / 100 \<le> w / 2 ^ 50" using a2 m2 a0 w0 by simp
  moreover have "w / 100 - m \<le> w / 2 ^ 50" using a1 m1 a0 w0 by simp
  ultimately show ?thesis unfolding w_def by linarith
qed

section \<open>The structure of a run\<close>

text \<open>
  With the recording suite a run on well-formed records emits the rules of each column
  in column order and then the row-count rule; with any framework the calls of
  \<open>add_expectation\<close> are these rules in this order, and the run raises exactly when a
  record is not well formed.
\<close>

lemma try_add_record: "try_add record_add u e cn = (fst cn @ [e], snd cn + 1)"
  by (simp add: try_add_def record_add_def)

lemma stat_body_record:
  "stat_ok st \<Longrightarrow>
   stat_body record_add () st (c, n) = (Inr (n + length (column_rules st)), c @ column_rules st)"
  by (auto simp: stat_ok_def stat_body_def column_rules_def not_null_step_def range_step_def
      unique_step_def try_add_record Let_def split: option.splits)

lemma for_stats_record:
  "list_all stat_ok stats \<Longrightarrow>
   for_stats record_add () stats (c, n) =
     (Inr (n + length (concat (map column_rules stats))), c @ concat (map column_rules stats))"
  by (induction stats arbitrary: c n) (simp_all add: stat_body_record)

lemma row_count_step_record:
  "row_count_step record_add () stats (c, n) =
     (c @ row_count_rules stats, n + length (row_count_rules stats))"
  by (simp add: row_count_step_def row_count_rules_def try_add_record Let_def split: list.splits)

lemma emitted_ok:
  "list_all stat_ok stats \<Longrightarrow>
   emitted stats = concat (map column_rules stats) @ row_count_rules stats"
  by (simp add: emitted_def generate_expectations_from_stats_def for_stats_record
      row_count_step_record)

lemma generate_record_ok:
  "list_all stat_ok stats \<Longrightarrow>
   generate_expectations_from_stats record_add () stats [] =
     (Inr (length (emitted stats)), emitted stats)"
  by (simp add: emitted_def generate_expectations_from_stats_def for_stats_record
      row_count_step_record)

lemma run_adds_simps [simp]:
  "run_adds a s [] c = c"
  "run_adds a s (e # es) c = run_adds a s es (snd (a s e c))"
  "run_adds a s (es @ es') c = run_adds a s es' (run_adds a s es c)"
  by (simp_all add: run_adds_def)

lemma try_add_state: "fst (try_add a s e cn) = snd (a s e (fst cn))"
  by (simp add: try_add_def split: prod.splits sum.splits)

lemma stat_body_isl: "isl (fst (stat_body a s st cn)) = (\<not> stat_ok st)"
  by (auto simp: stat_ok_def stat_body_def range_step_def Let_def split: option.splits)

lemma stat_body_record_state: "snd (stat_body record_add () st (c, n)) = c @ column_rules st"
  by (auto simp: stat_body_def column_rules_def not_null_step_def range_step_def
      unique_step_def try_add_record Let_def split: option.splits)

lemma stat_body_state:
  "snd (stat_body a s st (c, n)) = run_adds a s (column_rules st) c"
  by (auto simp: stat_body_def column_rules_def not_null_step_def range_step_def
      unique_step_def try_add_record try_add_state Let_def split: option.splits)

lemma for_stats_record_state:
  "snd (for_stats record_add () stats (c, n)) = c @ snd (for_stats record_add () stats ([], 0))"
proof (induction stats arbitrary: c n)
  case Nil
  show ?case by simp
next
  case (Cons st sts)
  obtain r c' where b: "stat_body record_add () st (c, n) = (r, c')"
    by (cases "stat_body record_add () st (c, n)")
  obtain r0 c0 where b0: "stat_body record_add () st ([], 0) = (r0, c0)"
    by (cases "stat_body record_add () st ([], 0)")
  have c': "c' = c @ column_rules st" and c0: "c0 = column_rules st"
    using b b0 stat_body_record_state [of st c n] stat_body_record_state [of st "[]" 0] by simp_all
  have l: "isl r = isl r0"
    using b b0 stat_body_isl [of record_add "()" st "(c, n)"]
      stat_body_isl [of record_add "()" st "([], 0)"] by simp
  show ?case
  proof (cases r)
    case (Inl e)
    then obtain e0 where "r0 = Inl e0" using l by (cases r0) simp_all
    with Inl b b0 c' c0 show ?thesis by simp
  next
    case (Inr m)
    then obtain m0 where r0: "r0 = Inr m0" using l by (cases r0) simp_all
    have "snd (for_stats record_add () sts (c', m)) = c' @ snd (for_stats record_add () sts ([], 0))"
      by (rule Cons.IH)
    moreover have "snd (for_stats record_add () sts (c0, m0)) = c0 @ snd (for_stats record_add () sts ([], 0))"
      by (rule Cons.IH)
    ultimately show ?thesis using Inr r0 b b0 c' c0 by simp
  qed
qed

lemma for_stats_state:
  "snd (for_stats a s stats (c, n)) = run_adds a s (snd (for_stats record_add () stats ([], 0))) c"
proof (induction stats arbitrary: c n)
  case Nil
  show ?case by simp
next
  case (Cons st sts)
  obtain r c' where b: "stat_body a s st (c, n) = (r, c')"
    by (cases "stat_body a s st (c, n)")
  obtain r0 c0 where b0: "stat_body record_add () st ([], 0) = (r0, c0)"
    by (cases "stat_body record_add () st ([], 0)")
  have c': "c' = run_adds a s (column_rules st) c" and c0: "c0 = column_rules st"
    using b b0 stat_body_state [of a s st c n] stat_body_record_state [of st "[]" 0] by simp_all
  have l: "isl r = isl r0"
    using b b0 stat_body_isl [of a s st "(c, n)"]
      stat_body_isl [of record_add "()" st "([], 0)"] by simp
  show ?case
  proof (cases r)
    case (Inl e)
    then obtain e0 where "r0 = Inl e0" using l by (cases r0) simp_all
    with Inl b b0 c' c0 show ?thesis by simp
  next
    case (Inr m)
    then obtain m0 where r0: "r0 = Inr m0" using l by (cases r0) simp_all
    have "snd (for_stats a s sts (c', m)) = run_adds a s (snd (for_stats record_add () sts ([], 0))) c'"
      by (rule Cons.IH)
    moreover have "snd (for_stats record_add () sts (c0, m0)) = c0 @ snd (for_stats record_add () sts ([], 0))"
      by (rule for_stats_record_state)
    ultimately show ?thesis using Inr r0 b b0 c' c0 by simp
  qed
qed

lemma for_stats_isl:
  "isl (fst (for_stats a s stats cn)) = (\<not> list_all stat_ok stats)"
proof (induction stats arbitrary: cn)
  case Nil
  show ?case by simp
next
  case (Cons st sts)
  obtain r c' where b: "stat_body a s st cn = (r, c')"
    by (cases "stat_body a s st cn")
  show ?case using b stat_body_isl [of a s st cn] Cons.IH
    by (cases r) simp_all
qed

lemma row_count_step_state:
  "fst (row_count_step a s stats (c, n)) = run_adds a s (row_count_rules stats) c"
  by (simp add: row_count_step_def row_count_rules_def try_add_record try_add_state Let_def
      split: list.splits)

lemma generate_state:
  "snd (generate_expectations_from_stats a s stats c) = run_adds a s (emitted stats) c"
proof -
  obtain r c' where f: "for_stats a s stats (c, 0) = (r, c')"
    by (cases "for_stats a s stats (c, 0)")
  obtain r0 c0 where f0: "for_stats record_add () stats ([], 0) = (r0, c0)"
    by (cases "for_stats record_add () stats ([], 0)")
  have c': "c' = run_adds a s c0 c"
    using f f0 for_stats_state [of a s stats c 0] by simp
  have l: "isl r = isl r0"
    using f f0 for_stats_isl [of a s stats "(c, 0)"] for_stats_isl [of record_add "()" stats "([], 0)"]
    by simp
  show ?thesis
  proof (cases r)
    case (Inl e)
    then obtain e0 where "r0 = Inl e0" using l by (cases r0) simp_all
    with Inl f f0 c' show ?thesis
      by (simp add: generate_expectations_from_stats_def emitted_def)
  next
    case (Inr m)
    then obtain m0 where r0: "r0 = Inr m0" using l by (cases r0) simp_all
    show ?thesis using Inr r0 f f0 c'
      by (simp add: generate_expectations_from_stats_def emitted_def Let_def
          row_count_step_state row_count_step_record)
  qed
qed

lemma generate_isl:
  "isl (fst (generate_expectations_from_stats a s stats c)) = (\<not> list_all stat_ok stats)"
proof -
  obtain r c' where f: "for_stats a s stats (c, 0) = (r, c')"
    by (cases "for_stats a s stats (c, 0)")
  show ?thesis using f for_stats_isl [of a s stats "(c, 0)"]
    by (cases r) (simp_all add: generate_expectations_from_stats_def Let_def)
qed

lemma column_rules_eq:
  "stat_ok st \<Longrightarrow> column_rules st =
     (if null_count st = Some 0 then [ExpectColumnValuesToNotBeNull (column st)] else []) @
     (case (min_val st, max_val st) of
        (Some mn, Some mx) \<Rightarrow>
          if \<not> is_numeric st then [] else
          [ExpectColumnValuesToBeBetween (column st)
             (py_round (float_sub mn (float_mul
                (if mx \<noteq> mn then float_sub mx mn else float_mul \<bar>mx\<bar> (to_double (1 / 10)))
                (to_double (1 / 10)))) 4)
             (py_round (float_add mx (float_mul
                (if mx \<noteq> mn then float_sub mx mn else float_mul \<bar>mx\<bar> (to_double (1 / 10)))
                (to_double (1 / 10)))) 4)]
      | _ \<Rightarrow> []) @
     (if distinct_count st = total_count st \<and> 0 < total_count st \<and> is_id_name (column st)
      then [ExpectColumnValuesToBeUnique (column st)] else [])"
  by (auto simp: stat_ok_def stat_body_def column_rules_def not_null_step_def range_step_def
      unique_step_def try_add_record Let_def split: option.splits)

lemma row_count_rules_not_column [simp]:
  "filter is_not_null_rule (row_count_rules stats) = []"
  "filter is_range_rule (row_count_rules stats) = []"
  "filter is_unique_rule (row_count_rules stats) = []"
  by (simp_all add: row_count_rules_def row_count_step_def try_add_record Let_def split: list.splits)

lemma filter_concat_map:
  "filter P (concat (map f xs)) = concat (map (\<lambda>x. filter P (f x)) xs)"
  by (induction xs) simp_all

lemma concat_map_if_singleton:
  "concat (map (\<lambda>x. if Q x then [g x] else []) xs) = map g (filter Q xs)"
  by (induction xs) simp_all

lemma concat_map_cong_ok:
  "list_all P xs \<Longrightarrow> (\<And>x. P x \<Longrightarrow> f x = g x) \<Longrightarrow> concat (map f xs) = concat (map g xs)"
  by (induction xs) simp_all

lemma concat_map_nil: "list_all P xs \<Longrightarrow> (\<And>x. P x \<Longrightarrow> f x = []) \<Longrightarrow> concat (map f xs) = []"
  by (induction xs) simp_all

lemma mset_concat_map:
  "mset (concat (map f xs)) = (\<Sum>x \<in># mset xs. mset (f x))"
  by (induction xs) simp_all

lemma not_null_column_rules:
  "stat_ok st \<Longrightarrow> filter is_not_null_rule (column_rules st) =
     (if null_count st = Some 0 then [ExpectColumnValuesToNotBeNull (column st)] else [])"
  by (simp add: column_rules_eq split: option.splits bool.splits)

lemma range_column_rules:
  "stat_ok st \<Longrightarrow> filter is_range_rule (column_rules st) = spec_range_rules st"
  by (simp add: column_rules_eq spec_range_rules_def float_mul_def mult.commute Let_def
      split: option.splits)

lemma unique_column_rules:
  "stat_ok st \<Longrightarrow> filter is_unique_rule (column_rules st) =
     (if distinct_count st = total_count st \<and> 0 < total_count st \<and> is_id_name (column st)
      then [ExpectColumnValuesToBeUnique (column st)] else [])"
  by (simp add: column_rules_eq split: option.splits bool.splits)

lemma row_count_column_rules:
  "stat_ok st \<Longrightarrow> filter is_row_count_rule (column_rules st) = []"
  by (simp add: column_rules_eq split: option.splits)

lemma not_null_filter_emitted:
  assumes "list_all stat_ok stats"
  shows "filter is_not_null_rule (emitted stats) =
           map (\<lambda>st. ExpectColumnValuesToNotBeNull (column st))
             (filter (\<lambda>st. null_count st = Some 0) stats)"
proof -
  have "filter is_not_null_rule (emitted stats) =
          concat (map (\<lambda>st. filter is_not_null_rule (column_rules st)) stats)"
    using assms by (simp add: emitted_ok filter_concat_map)
  also have "\<dots> = concat (map (\<lambda>st. if null_count st = Some 0
                 then [ExpectColumnValuesToNotBeNull (column st)] else []) stats)"
    using assms by (rule concat_map_cong_ok) (rule not_null_column_rules)
  finally show ?thesis by (simp add: concat_map_if_singleton)
qed

lemma row_count_rules_hd:
  "total_count (hd stats') = total_count (hd stats) \<Longrightarrow> (stats' = [] \<longleftrightarrow> stats = []) \<Longrightarrow>
   row_count_rules stats' = row_count_rules stats"
  by (cases stats; cases stats') (simp_all add: row_count_rules_def row_count_step_def)

section \<open>Records collected from the database\<close>

text \<open>
  When the database returns \<open>MIN\<close> and \<open>MAX\<close> null together, every record of
  \<open>get_column_stats\<close> is well formed.  On a table without rows \<open>auto_profile_table\<close>
  raises while it prints the statistics of a numeric column, before a suite is created.
\<close>

lemma column_stat_ok:
  assumes "\<And>t col c r0 r1 r2 r3 r4 r5 c'.
             query_numeric db t col c = (Inr (r0, r1, r2, r3, r4, r5), c') \<Longrightarrow>
             (r0 = None) = (r1 = None)"
    and "column_stat db table_name col c = (Inr st, c')"
  shows "stat_ok st"
proof -
  obtain col_name dtype nullable where col: "col = (col_name, dtype, nullable)" by (cases col)
  show ?thesis
  proof (cases "dtype \<in> set numeric_types")
    case True
    obtain r c1 where q: "query_numeric db table_name col_name c = (r, c1)"
      by (cases "query_numeric db table_name col_name c")
    show ?thesis
    proof (cases r)
      case (Inl e)
      with assms(2) col True q show ?thesis by (simp add: column_stat_def)
    next
      case (Inr row)
      obtain r0 r1 r2 r3 r4 r5 where row: "row = (r0, r1, r2, r3, r4, r5)"
        by (cases row) auto
      have "(r0 = None) = (r1 = None)" using assms(1) q Inr row by simp
      with assms(2) col True q Inr row show ?thesis
        by (auto simp: column_stat_def stat_ok_def py_float_def)
    qed
  next
    case False
    with assms(2) col show ?thesis
      by (auto simp: column_stat_def stat_ok_def split: prod.splits sum.splits)
  qed
qed

lemma columns_loop_ok:
  assumes "\<And>t col c r0 r1 r2 r3 r4 r5 c'.
             query_numeric db t col c = (Inr (r0, r1, r2, r3, r4, r5), c') \<Longrightarrow>
             (r0 = None) = (r1 = None)"
    and "columns_loop db table_name cols acc c = (Inr stats, c')"
    and "list_all stat_ok acc"
  shows "list_all stat_ok stats"
  using assms(2,3)
proof (induction cols arbitrary: acc c)
  case Nil
  then show ?case by simp
next
  case (Cons col cols)
  obtain r c1 where cs: "column_stat db table_name col c = (r, c1)"
    by (cases "column_stat db table_name col c")
  show ?case
  proof (cases r)
    case (Inl e)
    with Cons.prems(1) cs show ?thesis by simp
  next
    case (Inr st)
    have "stat_ok st" using assms(1) cs Inr by (intro column_stat_ok [of db]) auto
    then have "list_all stat_ok (acc @ [st])" using Cons.prems(2) by simp
    moreover have "columns_loop db table_name cols (acc @ [st]) c1 = (Inr stats, c')"
      using Cons.prems(1) cs Inr by simp
    ultimately show ?thesis by (rule Cons.IH [rotated])
  qed
qed

lemma get_column_stats_ok:
  assumes "\<And>t col c r0 r1 r2 r3 r4 r5 c'.
             query_numeric db t col c = (Inr (r0, r1, r2, r3, r4, r5), c') \<Longrightarrow>
             (r0 = None) = (r1 = None)"
    and "get_column_stats db table_name c = (Inr stats, c')"
  shows "list_all stat_ok stats"
proof -
  obtain r1 c1 where a: "connect db c = (r1, c1)" by (cases "connect db c")
  obtain r2 c2 where b: "query_columns db table_name c1 = (r2, c2)"
    by (cases "query_columns db table_name c1")
  from assms(2) a b obtain cols where "columns_loop db table_name cols [] c2 = (Inr stats, c')"
    by (cases r1; cases r2) (simp_all add: get_column_stats_def)
  with assms(1) show ?thesis by (rule columns_loop_ok) simp_all
qed

lemma show_stats_zero_row:
  assumes "st \<in> set stats" and "is_numeric st" and "zero_row_stat st"
  shows "show_stats stats = Inl (TypeError ''unsupported format string passed to NoneType.__format__'')"
  using assms by (auto simp: show_stats_def zero_row_stat_def)

section \<open>The range rule\<close>

lemma range_rule_s_quantity:
  "filter is_range_rule (emitted [ex_s_quantity]) =
     [ExpectColumnValuesToBeBetween ''s_quantity'' 99 101]"
  by code_simp

text \<open>
  Claim C1 fails as stated: for \<open>min = max = 100\<close> the rule is over [99, 101], not over
  [90, 110].  The span is 10% of \<open>|v|\<close> and the margin is 10% of the span.
\<close>

theorem degenerate_range_counterexample:
  "is_numeric ex_s_quantity \<and> min_val ex_s_quantity = Some 100 \<and> max_val ex_s_quantity = Some 100
   \<and> filter is_range_rule (emitted [ex_s_quantity]) =
       [ExpectColumnValuesToBeBetween ''s_quantity'' 99 101]
   \<and> filter is_range_rule (emitted [ex_s_quantity]) \<noteq>
       [ExpectColumnValuesToBeBetween ''s_quantity'' (100 - 1 / 10 * \<bar>100\<bar>) (100 + 1 / 10 * \<bar>100\<bar>)]"
  by (simp add: range_rule_s_quantity) (simp add: ex_s_quantity_def)

text \<open>
  Claim C1, amended.  For a numeric record with \<open>min = max = v\<close>, \<open>v \<noteq> 0\<close>, the one
  range rule of the record has the bounds \<open>round(v - m, 4)\<close> and \<open>round(v + m, 4)\<close>
  with the margin \<open>m = 0.1 (0.1 |v|)\<close> computed in floats, which is 1% of \<open>|v|\<close> up
  to a relative error of \<open>2^-50\<close>.
\<close>

theorem degenerate_range_rule:
  assumes "list_all stat_ok stats" and "st \<in> set stats"
    and "is_numeric st" and "min_val st = Some v" and "max_val st = Some v" and "v \<noteq> 0"
  shows "let m = float_mul (float_mul \<bar>v\<bar> (to_double (1 / 10))) (to_double (1 / 10));
             r = ExpectColumnValuesToBeBetween (column st)
                   (py_round (float_sub v m) 4) (py_round (float_add v m) 4)
         in filter is_range_rule (column_rules st) = [r] \<and> r \<in> set (emitted stats)
            \<and> \<bar>m - \<bar>v\<bar> / 100\<bar> \<le> \<bar>v\<bar> / 2 ^ 50"
proof -
  define m where "m = float_mul (float_mul \<bar>v\<bar> (to_double (1 / 10))) (to_double (1 / 10))"
  define r where "r = ExpectColumnValuesToBeBetween (column st)
                   (py_round (float_sub v m) 4) (py_round (float_add v m) 4)"
  have ok: "stat_ok st" using assms(1,2) by (simp add: list_all_iff)
  have a: "filter is_range_rule (column_rules st) = [r]"
    using assms(3-5)
    by (simp add: range_column_rules [OF ok] spec_range_rules_def r_def m_def float_mul_def
        mult.commute Let_def)
  have "r \<in> set (filter is_range_rule (column_rules st))"
    unfolding a by simp
  then have "r \<in> set (concat (map (\<lambda>st. filter is_range_rule (column_rules st)) stats))"
    using assms(2) unfolding set_concat by (intro UN_I [of "filter is_range_rule (column_rules st)"]) simp_all
  then have "r \<in> set (filter is_range_rule (emitted stats))"
    using assms(1) by (simp add: emitted_ok filter_concat_map del: set_concat set_filter)
  then have b: "r \<in> set (emitted stats)" by simp
  have c: "\<bar>m - \<bar>v\<bar> / 100\<bar> \<le> \<bar>v\<bar> / 2 ^ 50"
    unfolding m_def by (rule degenerate_margin_close)
  show ?thesis
    using a b c unfolding Let_def m_def r_def by (intro conjI)
qed

theorem degenerate_range_rule_witness:
  "list_all stat_ok [ex_s_quantity] \<and> ex_s_quantity \<in> set [ex_s_quantity]
   \<and> is_numeric ex_s_quantity \<and> min_val ex_s_quantity = Some 100
   \<and> max_val ex_s_quantity = Some 100 \<and> (100::rat) \<noteq> 0
   \<and> ExpectColumnValuesToBeBetween ''s_quantity'' 99 101 \<in> set (emitted [ex_s_quantity])"
proof -
  have h: "list_all stat_ok [ex_s_quantity]" "ex_s_quantity \<in> set [ex_s_quantity]"
    "is_numeric ex_s_quantity" "min_val ex_s_quantity = Some 100"
    "max_val ex_s_quantity = Some 100" "(100::rat) \<noteq> 0"
    by (simp_all add: stat_ok_def ex_s_quantity_def)
  have e: "py_round (float_sub 100 (float_mul (float_mul \<bar>100\<bar> (to_double (1 / 10)))
              (to_double (1 / 10)))) 4 = 99"
      "py_round (float_add 100 (float_mul (float_mul \<bar>100\<bar> (to_double (1 / 10)))
              (to_double (1 / 10)))) 4 = 101"
    by code_simp+
  have c: "column ex_s_quantity = ''s_quantity''" by (simp add: ex_s_quantity_def)
  have "ExpectColumnValuesToBeBetween ''s_quantity'' 99 101 \<in> set (emitted [ex_s_quantity])"
    using degenerate_range_rule [OF h] unfolding Let_def e c by (elim conjE)
  with h show ?thesis by (intro conjI)
qed

text \<open>
  Claim C2.  The range rules of a run are, in column order, exactly one rule for each
  numeric record with a minimum, with the bounds of \<open>spec_range_rules\<close>:
  \<open>round(min - 0.1 (max - min), 4)\<close> and \<open>round(max + 0.1 (max - min), 4)\<close> when
  \<open>min \<noteq> max\<close>, and the same with the span \<open>0.1 |max|\<close> when \<open>min = max\<close>.
\<close>

theorem range_rule_bounds:
  assumes "list_all stat_ok stats"
  shows "filter is_range_rule (emitted stats) = concat (map spec_range_rules stats)"
proof -
  have "filter is_range_rule (emitted stats) =
          concat (map (\<lambda>st. filter is_range_rule (column_rules st)) stats)"
    using assms by (simp add: emitted_ok filter_concat_map)
  also have "\<dots> = concat (map spec_range_rules stats)"
    using assms by (rule concat_map_cong_ok) (rule range_column_rules)
  finally show ?thesis .
qed

theorem range_rule_bounds_witness:
  "list_all stat_ok [ex_i_id, ex_i_price, ex_i_data] \<and>
   filter is_range_rule (emitted [ex_i_id, ex_i_price, ex_i_data]) =
     [ExpectColumnValuesToBeBetween ''i_id'' (to_double (- 99989 / 10)) (to_double (1099999 / 10)),
      ExpectColumnValuesToBeBetween ''i_price'' (to_double (- 89 / 10)) (to_double (1099 / 10))]"
proof -
  have ok: "list_all stat_ok [ex_i_id, ex_i_price, ex_i_data]"
    by (simp add: stat_ok_def ex_i_id_def ex_i_price_def ex_i_data_def)
  have a: "spec_range_rules ex_i_id =
      [ExpectColumnValuesToBeBetween ''i_id'' (to_double (- 99989 / 10)) (to_double (1099999 / 10))]"
    by code_simp
  have b: "spec_range_rules ex_i_price =
      [ExpectColumnValuesToBeBetween ''i_price'' (to_double (- 89 / 10)) (to_double (1099 / 10))]"
    by code_simp
  have c: "spec_range_rules ex_i_data = []"
    by code_simp
  show ?thesis
    using range_rule_bounds [OF ok] ok by (simp only: a b c list.map concat.simps append.simps simp_thms)
qed

section \<open>The uniqueness rule and the not-null rule\<close>

lemma not_id_ol_amount: "\<not> is_id_name ''ol_amount''"
  by code_simp

text \<open>
  Claim C3.  The uniqueness rules of a run are, in column order, exactly one rule for each
  record with \<open>distinct_count = total_count\<close>, \<open>total_count > 0\<close> and a lower-cased
  column name that contains \<open>_id\<close> or ends in \<open>id\<close>; no run emits a uniqueness rule
  for a column named \<open>ol_amount\<close>.
\<close>

theorem unique_rule_iff_key_column:
  assumes "list_all stat_ok stats"
  shows "filter is_unique_rule (emitted stats) =
           map (\<lambda>st. ExpectColumnValuesToBeUnique (column st))
             (filter (\<lambda>st. distinct_count st = total_count st \<and> 0 < total_count st \<and>
                 (sublist ''_id'' (lower (column st)) \<or> suffix ''id'' (lower (column st)))) stats)
         \<and> ExpectColumnValuesToBeUnique ''ol_amount'' \<notin> set (emitted stats)"
proof -
  have "filter is_unique_rule (emitted stats) =
          concat (map (\<lambda>st. filter is_unique_rule (column_rules st)) stats)"
    using assms by (simp add: emitted_ok filter_concat_map)
  also have "\<dots> = concat (map (\<lambda>st. if distinct_count st = total_count st \<and> 0 < total_count st
                 \<and> is_id_name (column st)
                 then [ExpectColumnValuesToBeUnique (column st)] else []) stats)"
    using assms by (rule concat_map_cong_ok) (rule unique_column_rules)
  finally have eq: "filter is_unique_rule (emitted stats) =
           map (\<lambda>st. ExpectColumnValuesToBeUnique (column st))
             (filter (\<lambda>st. distinct_count st = total_count st \<and> 0 < total_count st \<and>
                 is_id_name (column st)) stats)"
    by (simp add: concat_map_if_singleton)
  have "ExpectColumnValuesToBeUnique ''ol_amount'' \<notin> set (filter is_unique_rule (emitted stats))"
    unfolding eq using not_id_ol_amount by auto
  then have "ExpectColumnValuesToBeUnique ''ol_amount'' \<notin> set (emitted stats)"
    by simp
  with eq show ?thesis by (simp add: is_id_name_def)
qed

theorem unique_rule_iff_key_column_witness:
  "list_all stat_ok [ex_ol_o_id, ex_ol_amount] \<and>
   filter is_unique_rule (emitted [ex_ol_o_id, ex_ol_amount]) =
     [ExpectColumnValuesToBeUnique ''ol_o_id''] \<and>
   ExpectColumnValuesToBeUnique ''ol_amount'' \<notin> set (emitted [ex_ol_o_id, ex_ol_amount])"
proof -
  have a: "sublist ''_id'' (lower ''ol_o_id'')" by code_simp
  have b: "\<not> sublist ''_id'' (lower ''ol_amount'')" "\<not> suffix ''id'' (lower ''ol_amount'')"
    by code_simp+
  have ok: "list_all stat_ok [ex_ol_o_id, ex_ol_amount]"
    by (simp add: stat_ok_def ex_ol_o_id_def ex_ol_amount_def)
  show ?thesis
    using unique_rule_iff_key_column [OF ok] ok a b
    by (simp add: ex_ol_o_id_def ex_ol_amount_def)
qed

text \<open>
  Claim C4.  On a list of well-formed records the not-null rules of a run are, in column
  order, exactly one rule for each record whose \<open>null_count\<close> is the integer zero: a
  record with a positive \<open>null_count\<close>, or with none, yields no not-null rule.
\<close>

theorem not_null_rule_iff_null_count_zero:
  assumes "list_all stat_ok stats"
  shows "filter is_not_null_rule (emitted stats) =
           map (\<lambda>st. ExpectColumnValuesToNotBeNull (column st))
             (filter (\<lambda>st. null_count st = Some 0) stats)"
  using assms by (rule not_null_filter_emitted)

theorem not_null_rule_iff_null_count_zero_witness:
  "list_all stat_ok [ex_i_id, ex_i_data] \<and>
   filter is_not_null_rule (emitted [ex_i_id, ex_i_data]) = [ExpectColumnValuesToNotBeNull ''i_id'']"
  using not_null_rule_iff_null_count_zero [of "[ex_i_id, ex_i_data]"]
  by (simp add: stat_ok_def ex_i_id_def ex_i_data_def)

section \<open>The row-count rule\<close>

text \<open>
  Claim C5.  For a non-empty list of well-formed records whose first record counts
  \<open>N\<close> rows, \<open>0 \<le> N < 2^49\<close> (no table holds more), the run emits exactly one
  row-count rule, with bounds \<open>floor(0.8 N)\<close> and \<open>floor(1.2 N)\<close>, when \<open>N\<close> is
  not zero, and no row-count rule when \<open>N = 0\<close>.  The bounds are those of the float
  products \<open>int(N * 0.8)\<close> and \<open>int(N * 1.2)\<close>: their rounding never crosses an
  integer.
\<close>

theorem row_count_rule_bounds:
  assumes "list_all stat_ok (st0 # sts)"
    and "0 \<le> total_count st0" and "total_count st0 < 2 ^ 49"
  shows "filter is_row_count_rule (emitted (st0 # sts)) =
           (if total_count st0 = 0 then []
            else [ExpectTableRowCountToBeBetween
                    \<lfloor>8 / 10 * (of_int (total_count st0) :: rat)\<rfloor>
                    \<lfloor>12 / 10 * (of_int (total_count st0) :: rat)\<rfloor>])"
proof -
  have c: "concat (map (\<lambda>st. filter is_row_count_rule (column_rules st)) (st0 # sts)) = []"
    using assms(1) by (rule concat_map_nil) (rule row_count_column_rules)
  have e: "filter is_row_count_rule (emitted (st0 # sts)) =
           filter is_row_count_rule (row_count_rules (st0 # sts))"
    using c by (simp only: emitted_ok [OF assms(1)] filter_append filter_concat_map append_Nil)
  show ?thesis
  proof (cases "total_count st0 = 0")
    case True
    then show ?thesis
      unfolding e by (simp add: row_count_rules_def row_count_step_def)
  next
    case False
    then have p: "0 < total_count st0" using assms(2) by simp
    have "total_count st0 < 2 ^ 50" using assms(3) by simp
    with p have mn: "py_int (float_mul (float_of_int (total_count st0)) (to_double (8 / 10))) =
        \<lfloor>8 / 10 * (of_int (total_count st0) :: rat)\<rfloor>"
      by (rule min_rows_floor)
    have mx: "py_int (float_mul (float_of_int (total_count st0)) (to_double (12 / 10))) =
        \<lfloor>12 / 10 * (of_int (total_count st0) :: rat)\<rfloor>"
      using p assms(3) by (rule max_rows_floor)
    have "row_count_rules (st0 # sts) =
            [ExpectTableRowCountToBeBetween
               (py_int (float_mul (float_of_int (total_count st0)) (to_double (8 / 10))))
               (py_int (float_mul (float_of_int (total_count st0)) (to_double (12 / 10))))]"
      using False by (simp add: row_count_rules_def row_count_step_def try_add_record Let_def)
    then show ?thesis unfolding e using False by (simp only: mn mx) simp
  qed
qed

theorem row_count_rule_bounds_witness:
  "list_all stat_ok [ex_i_id, ex_i_price] \<and> 0 \<le> total_count ex_i_id
   \<and> total_count ex_i_id < 2 ^ 49
   \<and> filter is_row_count_rule (emitted [ex_i_id, ex_i_price]) =
       [ExpectTableRowCountToBeBetween 80000 120000]
   \<and> list_all stat_ok [ex_empty_id] \<and> filter is_row_count_rule (emitted [ex_empty_id]) = []"
proof -
  have a: "list_all stat_ok [ex_i_id, ex_i_price]" "list_all stat_ok [ex_empty_id]"
    by (simp_all add: stat_ok_def ex_i_id_def ex_i_price_def ex_empty_id_def)
  have b: "0 \<le> total_count ex_i_id" "total_count ex_i_id < 2 ^ 49" "total_count ex_i_id = 100000"
    "0 \<le> total_count ex_empty_id" "total_count ex_empty_id < 2 ^ 49" "total_count ex_empty_id = 0"
    by (simp_all add: ex_i_id_def ex_empty_id_def)
  show ?thesis
    using row_count_rule_bounds [OF a(1) b(1) b(2)] row_count_rule_bounds [OF a(2) b(4) b(5)] a b
    by simp
qed

section \<open>Suite creation in the profiler\<close>

lemma auto_profile_table_after_stats:
  assumes "get_column_stats db table_name c = (Inr stats, c0)" and "show_stats stats = Inr ()"
  shows "auto_profile_table db api ds table_name asset suite_name (c, out) =
           (case create_suite api suite_name c0 of
              (Inl e, c2) \<Rightarrow> (Inl e, (c2, out @ [AutoProfiling table_name]))
            | (Inr suite, c2) \<Rightarrow>
                (case generate_expectations_from_stats (suite_add_expectation api) suite stats c2 of
                   (Inl e, c3) \<Rightarrow> (Inl e, (c3, out @ [AutoProfiling table_name]))
                 | (Inr added, c3) \<Rightarrow> (Inr suite, (c3, out @ [AutoProfiling table_name]))))"
  using assms by (simp add: auto_profile_table_def Let_def)

lemma auto_profile_table_created:
  assumes "get_column_stats db table_name c = (Inr stats, c0)" and "show_stats stats = Inr ()"
    and "create_suite api suite_name c0 = (Inr suite, c3)"
  shows "snd (auto_profile_table db api ds table_name asset suite_name (c, out)) =
           (run_adds (suite_add_expectation api) suite (emitted stats) c3,
            out @ [AutoProfiling table_name])"
proof -
  obtain r c4 where g: "generate_expectations_from_stats (suite_add_expectation api) suite stats c3 = (r, c4)"
    by (cases "generate_expectations_from_stats (suite_add_expectation api) suite stats c3")
  have "c4 = run_adds (suite_add_expectation api) suite (emitted stats) c3"
    using generate_state [of "suite_add_expectation api" suite stats c3] g by simp
  then show ?thesis
    using g assms(3) by (cases r) (simp_all add: auto_profile_table_after_stats [OF assms(1,2)])
qed

text \<open>
  Claim C6.  Suppose the statistics of a table were collected and shown, and
  \<open>context.suites.add\<close> raises \<open>e\<close>.  If \<open>str(e).lower()\<close> contains
  \<open>already exists\<close>, the suite is deleted and added again, and the rules are added to
  the new suite afterwards: the final state is the state after the second \<open>add\<close> with
  the emitted rules added in order.  Otherwise \<open>e\<close> itself is raised again without a
  delete, \<open>auto_profile_table\<close> raises it, and the loop of \<open>main\<close> prints the error
  line for the table and goes on with the remaining tables.
\<close>

theorem suite_creation_errors:
  assumes "get_column_stats db table_name c = (Inr stats, c0)" and "show_stats stats = Inr ()"
    and "suites_add api suite_name c0 = (Inl e, c1)"
  shows "(sublist ''already exists'' (lower (str e)) \<longrightarrow>
           (\<forall>c2 suite c3.
              suites_delete api suite_name c1 = (Inr (), c2) \<longrightarrow>
              suites_add api suite_name c2 = (Inr suite, c3) \<longrightarrow>
                create_suite api suite_name c0 = (Inr suite, c3) \<and>
                snd (auto_profile_table db api ds table_name asset suite_name (c, out)) =
                  (run_adds (suite_add_expectation api) suite (emitted stats) c3,
                   out @ [AutoProfiling table_name])))
       \<and> (\<not> sublist ''already exists'' (lower (str e)) \<longrightarrow>
            create_suite api suite_name c0 = (Inl e, c1) \<and>
            auto_profile_table db api ds table_name asset suite_name (c, out) =
              (Inl e, (c1, out @ [AutoProfiling table_name])) \<and>
            (\<forall>ts. profile_tables db api ((table_name, asset, suite_name) # ts) (c, out) =
                  profile_tables db api ts
                    (c1, out @ [AutoProfiling table_name, ErrorProfiling table_name (str e)])))"
proof (intro conjI impI allI)
  fix c2 suite c3
  assume ae: "sublist ''already exists'' (lower (str e))"
    and d: "suites_delete api suite_name c1 = (Inr (), c2)"
    and a: "suites_add api suite_name c2 = (Inr suite, c3)"
  show cs: "create_suite api suite_name c0 = (Inr suite, c3)"
    using assms(3) ae d a by (simp add: create_suite_def)
  show "snd (auto_profile_table db api ds table_name asset suite_name (c, out)) =
          (run_adds (suite_add_expectation api) suite (emitted stats) c3,
           out @ [AutoProfiling table_name])"
    using assms(1,2) cs by (rule auto_profile_table_created)
next
  assume ne: "\<not> sublist ''already exists'' (lower (str e))"
  show cs: "create_suite api suite_name c0 = (Inl e, c1)"
    using assms(3) ne by (simp add: create_suite_def)
  show ap: "auto_profile_table db api ds table_name asset suite_name (c, out) =
              (Inl e, (c1, out @ [AutoProfiling table_name]))"
    by (simp add: auto_profile_table_after_stats [OF assms(1,2)] cs)
  fix ts
  have "auto_profile_table db api ''tpcc_postgres'' table_name asset suite_name (c, out) =
              (Inl e, (c1, out @ [AutoProfiling table_name]))"
    by (simp add: auto_profile_table_after_stats [OF assms(1,2)] cs)
  then show "profile_tables db api ((table_name, asset, suite_name) # ts) (c, out) =
          profile_tables db api ts
            (c1, out @ [AutoProfiling table_name, ErrorProfiling table_name (str e)])"
    by simp
qed

lemma store_run_adds:
  "c name = Some es0 \<Longrightarrow>
   run_adds (suite_add_expectation store_api) name es c = c(name \<mapsto> es0 @ es)"
proof (induction es arbitrary: c es0)
  case Nil
  then show ?case by (simp add: fun_upd_idem)
next
  case (Cons e es)
  have "snd (suite_add_expectation store_api name e c) = c(name \<mapsto> es0 @ [e])"
    using Cons.prems by (simp add: store_api_def)
  then have "run_adds (suite_add_expectation store_api) name (e # es) c =
             run_adds (suite_add_expectation store_api) name es (c(name \<mapsto> es0 @ [e]))"
    by simp
  also have "\<dots> = (c(name \<mapsto> es0 @ [e]))(name \<mapsto> (es0 @ [e]) @ es)"
    by (rule Cons.IH) simp
  also have "\<dots> = c(name \<mapsto> es0 @ e # es)" by simp
  finally show ?case .
qed

lemma ex_db_item: "get_column_stats ex_db ''item'' c = (Inr [ex_i_id, ex_i_data], c)"
proof -
  have n: "''integer'' \<in> set numeric_types" "''character varying'' \<notin> set numeric_types"
    by (simp_all add: numeric_types_def)
  have f: "to_double 1 = 1" "to_double 100000 = 100000" "to_double (100001 / 2) = 100001 / 2"
    by code_simp+
  show ?thesis
    by (simp add: get_column_stats_def column_stat_def ex_db_def n py_float_def f
        ex_i_id_def ex_i_data_def)
qed

lemma already_exists_message:
  "sublist ''already exists''
     (lower (str (Exception (''An ExpectationSuite named '' @ ''item_auto'' @ '' already exists.''))))"
  by code_simp

lemma permission_denied_message:
  "\<not> sublist ''already exists'' (lower (str (Exception ''Permission denied'')))"
  by code_simp

theorem suite_creation_errors_witness:
  "get_column_stats ex_db ''item'' ex_store = (Inr [ex_i_id, ex_i_data], ex_store)
   \<and> show_stats [ex_i_id, ex_i_data] = Inr ()
   \<and> suites_add store_api ''item_auto'' ex_store =
       (Inl (Exception (''An ExpectationSuite named '' @ ''item_auto'' @ '' already exists.'')),
        ex_store)
   \<and> suites_delete store_api ''item_auto'' ex_store = (Inr (), Map.empty)
   \<and> suites_add store_api ''item_auto'' Map.empty = (Inr ''item_auto'', [''item_auto'' \<mapsto> []])
   \<and> snd (auto_profile_table ex_db store_api ''tpcc_postgres'' ''item'' ''item_asset''
            ''item_auto'' (ex_store, [])) =
       ([''item_auto'' \<mapsto> emitted [ex_i_id, ex_i_data]], [AutoProfiling ''item''])
   \<and> suites_add deny_api ''item_auto'' ex_store = (Inl (Exception ''Permission denied''), ex_store)
   \<and> auto_profile_table ex_db deny_api ''tpcc_postgres'' ''item'' ''item_asset''
        ''item_auto'' (ex_store, []) =
       (Inl (Exception ''Permission denied''), (ex_store, [AutoProfiling ''item'']))
   \<and> profile_tables ex_db deny_api [(''item'', ''item_asset'', ''item_auto'')] (ex_store, []) =
       (ex_store, [AutoProfiling ''item'', ErrorProfiling ''item'' ''Permission denied''])"
proof -
  have s: "get_column_stats ex_db ''item'' ex_store = (Inr [ex_i_id, ex_i_data], ex_store)"
    by (rule ex_db_item)
  have p: "show_stats [ex_i_id, ex_i_data] = Inr ()"
    by (simp add: show_stats_def ex_i_id_def ex_i_data_def)
  have a1: "suites_add store_api ''item_auto'' ex_store =
       (Inl (Exception (''An ExpectationSuite named '' @ ''item_auto'' @ '' already exists.'')),
        ex_store)"
    by (simp add: store_api_def ex_store_def)
  have d: "suites_delete store_api ''item_auto'' ex_store = (Inr (), Map.empty)"
    by (simp add: store_api_def ex_store_def)
  have a2: "suites_add store_api ''item_auto'' Map.empty = (Inr ''item_auto'', [''item_auto'' \<mapsto> []])"
    by (simp add: store_api_def)
  have r: "run_adds (suite_add_expectation store_api) ''item_auto'' (emitted [ex_i_id, ex_i_data])
             [''item_auto'' \<mapsto> []] = [''item_auto'' \<mapsto> emitted [ex_i_id, ex_i_data]]"
    by (simp add: store_run_adds [of _ _ "[]"])
  have b1: "suites_add deny_api ''item_auto'' ex_store = (Inl (Exception ''Permission denied''), ex_store)"
    by (simp add: deny_api_def)
  note t1 = suite_creation_errors [OF s p a1, of "''tpcc_postgres''" "''item_asset''" "[]"]
  note t2 = suite_creation_errors [OF s p b1, of "''tpcc_postgres''" "''item_asset''" "[]"]
  have w1: "snd (auto_profile_table ex_db store_api ''tpcc_postgres'' ''item'' ''item_asset''
            ''item_auto'' (ex_store, [])) =
       ([''item_auto'' \<mapsto> emitted [ex_i_id, ex_i_data]], [AutoProfiling ''item''])"
    using t1 already_exists_message d a2 r by simp
  have w2: "auto_profile_table ex_db deny_api ''tpcc_postgres'' ''item'' ''item_asset''
        ''item_auto'' (ex_store, []) =
       (Inl (Exception ''Permission denied''), (ex_store, [AutoProfiling ''item'']))"
    and w3: "profile_tables ex_db deny_api [(''item'', ''item_asset'', ''item_auto'')] (ex_store, []) =
       (ex_store, [AutoProfiling ''item'', ErrorProfiling ''item'' ''Permission denied''])"
    using t2 permission_denied_message by simp_all
  show ?thesis using s p a1 d a2 w1 b1 w2 w3 by (intro conjI)
qed

section \<open>The exit status of the validator\<close>










section \<open>Tables without rows\<close>

lemma stat_body_zero_row:
  "zero_row_stat st \<Longrightarrow> stat_body a s st (c, n) = (Inr n, c)"
  by (simp add: zero_row_stat_def stat_body_def not_null_step_def range_step_def unique_step_def)

lemma for_stats_zero_row:
  "list_all zero_row_stat stats \<Longrightarrow> for_stats a s stats (c, n) = (Inr n, c)"
  by (induction stats) (simp_all add: stat_body_zero_row)

lemma row_count_step_zero_row:
  "list_all zero_row_stat stats \<Longrightarrow> row_count_step a s stats cn = cn"
  by (cases stats) (simp_all add: row_count_step_def zero_row_stat_def)

text \<open>
  Claim C8.  On the records of a table without rows (\<open>min\<close>, \<open>max\<close>, \<open>avg\<close> and
  \<open>null_count\<close> are \<open>None\<close>, \<open>total_count\<close> is zero) the function returns 0
  without raising and without a single call of \<open>add_expectation\<close>, whatever the
  framework does: no range rule, and no other rule, is emitted.
\<close>

theorem zero_row_stats_total:
  assumes "list_all zero_row_stat stats"
  shows "generate_expectations_from_stats add_expectation suite stats c = (Inr 0, c)
         \<and> emitted stats = []"
  using assms
  by (simp add: generate_expectations_from_stats_def emitted_def for_stats_zero_row
      row_count_step_zero_row)

theorem zero_row_stats_total_witness:
  "list_all zero_row_stat [ex_empty_id, ex_empty_data] \<and>
   generate_expectations_from_stats record_add () [ex_empty_id, ex_empty_data] [] = (Inr 0, [])
   \<and> emitted [ex_empty_id, ex_empty_data] = []"
  using zero_row_stats_total [of "[ex_empty_id, ex_empty_data]" record_add "()" "[]"]
  by (simp add: zero_row_stat_def ex_empty_id_def ex_empty_data_def)

section \<open>Column order\<close>

lemma emitted_c_data_c_since:
  "emitted [ex_c_data, ex_c_since] =
     [ExpectColumnValuesToNotBeNull ''c_data'', ExpectTableRowCountToBeBetween 8 12]"
  by code_simp

lemma emitted_c_since_c_data:
  "emitted [ex_c_since, ex_c_data] = [ExpectColumnValuesToNotBeNull ''c_data'']"
  by code_simp

text \<open>
  Claim C9 fails as stated: the row-count rule is built from the first record alone.  With
  a column counted at 10 rows and one counted at 0 rows, one order emits the row-count
  rule over [8, 12] and the other order emits no row-count rule.
\<close>

theorem column_order_counterexample:
  "mset [ex_c_since, ex_c_data] = mset [ex_c_data, ex_c_since] \<and>
   mset (emitted [ex_c_since, ex_c_data]) \<noteq> mset (emitted [ex_c_data, ex_c_since])"
  by (simp add: emitted_c_data_c_since emitted_c_since_c_data)

text \<open>
  Claim C9, amended.  For a permutation of a list of well-formed records whose first record
  has the same \<open>total_count\<close> as the first record of the original list, the rules of
  each column are the same and come in the order of the columns, the row-count rule is the
  same, and both runs return without raising.
\<close>

theorem column_order_same_first_count:
  assumes "mset stats' = mset stats"
    and "list_all stat_ok stats"
    and "total_count (hd stats') = total_count (hd stats)"
  shows "emitted stats = concat (map column_rules stats) @ row_count_rules stats
       \<and> emitted stats' = concat (map column_rules stats') @ row_count_rules stats
       \<and> mset (emitted stats') = mset (emitted stats)
       \<and> fst (generate_expectations_from_stats record_add () stats' []) =
           fst (generate_expectations_from_stats record_add () stats [])"
proof -
  have ok': "list_all stat_ok stats'"
    using assms(1,2) by (metis list_all_iff set_mset_mset)
  have e: "(stats' = []) = (stats = [])"
    using assms(1) by (metis mset_zero_iff)
  have r: "row_count_rules stats' = row_count_rules stats"
    using assms(3) e by (rule row_count_rules_hd)
  have m: "mset (concat (map column_rules stats')) = mset (concat (map column_rules stats))"
    by (simp add: mset_concat_map assms(1))
  have l: "length (emitted stats') = length (emitted stats)"
    using m r by (metis emitted_ok ok' assms(2) mset_append size_mset)
  show ?thesis
    using ok' assms(2) r m l by (simp add: emitted_ok generate_record_ok)
qed

theorem column_order_same_first_count_witness:
  "mset [ex_i_price, ex_i_id] = mset [ex_i_id, ex_i_price]
   \<and> list_all stat_ok [ex_i_id, ex_i_price]
   \<and> total_count (hd [ex_i_price, ex_i_id]) = total_count (hd [ex_i_id, ex_i_price])
   \<and> mset (emitted [ex_i_price, ex_i_id]) = mset (emitted [ex_i_id, ex_i_price])
   \<and> emitted [ex_i_price, ex_i_id] =
        column_rules ex_i_price @ column_rules ex_i_id @ row_count_rules [ex_i_id, ex_i_price]"
proof -
  have a: "mset [ex_i_price, ex_i_id] = mset [ex_i_id, ex_i_price]" by simp
  have b: "list_all stat_ok [ex_i_id, ex_i_price]"
    by (simp add: stat_ok_def ex_i_id_def ex_i_price_def)
  have c: "total_count (hd [ex_i_price, ex_i_id]) = total_count (hd [ex_i_id, ex_i_price])"
    by (simp add: ex_i_id_def ex_i_price_def)
  show ?thesis
    using column_order_same_first_count [OF a b c] a b c by simp
qed

section \<open>Declared nullability\<close>

lemma steps_is_nullable:
  "not_null_step a s (st\<lparr>is_nullable := b\<rparr>) cn = not_null_step a s st cn"
  "range_step a s (st\<lparr>is_nullable := b\<rparr>) cn = range_step a s st cn"
  "unique_step a s (st\<lparr>is_nullable := b\<rparr>) cn = unique_step a s st cn"
  by (simp_all add: not_null_step_def range_step_def unique_step_def split: option.splits)

lemma stat_body_is_nullable:
  "stat_body a s (st\<lparr>is_nullable := b\<rparr>) cn = stat_body a s st cn"
  by (simp add: stat_body_def steps_is_nullable Let_def split: sum.splits)

lemma for_stats_is_nullable:
  "for_stats a s (map declared_not_null stats) cn = for_stats a s stats cn"
  by (induction stats arbitrary: cn)
     (simp_all add: declared_not_null_def stat_body_is_nullable split: prod.splits sum.splits)

lemma row_count_step_is_nullable:
  "row_count_step a s (map declared_not_null stats) cn = row_count_step a s stats cn"
  by (cases stats) (simp_all add: row_count_step_def declared_not_null_def)

lemma generate_is_nullable:
  "generate_expectations_from_stats a s (map declared_not_null stats) c =
   generate_expectations_from_stats a s stats c"
  by (simp add: generate_expectations_from_stats_def for_stats_is_nullable
      row_count_step_is_nullable split: prod.splits sum.splits)

text \<open>
  Claim C10.  Two statistics lists that agree on everything but the \<open>is_nullable\<close>
  flags give the same result, the same final state and the same emitted rules, for every
  framework behaviour; and a nullable column whose \<open>null_count\<close> is zero gets its
  not-null rule.
\<close>

theorem is_nullable_never_read:
  assumes "map declared_not_null stats = map declared_not_null stats'"
  shows "generate_expectations_from_stats add_expectation suite stats c =
         generate_expectations_from_stats add_expectation suite stats' c
         \<and> emitted stats = emitted stats'
         \<and> (list_all stat_ok stats \<longrightarrow>
              (\<forall>st \<in> set stats. is_nullable st \<and> null_count st = Some 0 \<longrightarrow>
                 ExpectColumnValuesToNotBeNull (column st) \<in> set (emitted stats)))"
proof -
  have g: "generate_expectations_from_stats add_expectation suite stats c =
           generate_expectations_from_stats add_expectation suite stats' c"
    using generate_is_nullable [of add_expectation suite stats c]
      generate_is_nullable [of add_expectation suite stats' c] assms
    by simp
  have e: "emitted stats = emitted stats'"
    using generate_is_nullable [of record_add "()" stats "[]"]
      generate_is_nullable [of record_add "()" stats' "[]"] assms
    by (simp add: emitted_def)
  have "ExpectColumnValuesToNotBeNull (column st) \<in> set (emitted stats)"
    if ok: "list_all stat_ok stats" and st: "st \<in> set stats" "null_count st = Some 0" for st
  proof -
    have "ExpectColumnValuesToNotBeNull (column st)
            \<in> set (map (\<lambda>st. ExpectColumnValuesToNotBeNull (column st))
                 (filter (\<lambda>st. null_count st = Some 0) stats))"
      using st by auto
    then have "ExpectColumnValuesToNotBeNull (column st) \<in> set (filter is_not_null_rule (emitted stats))"
      using not_null_filter_emitted [OF ok] by simp
    then show ?thesis by simp
  qed
  with g e show ?thesis by blast
qed

theorem is_nullable_never_read_witness:
  "map declared_not_null [ex_i_price] = map declared_not_null [ex_i_price\<lparr>is_nullable := False\<rparr>]
   \<and> is_nullable ex_i_price \<and> null_count ex_i_price = Some 0 \<and> list_all stat_ok [ex_i_price]
   \<and> generate_expectations_from_stats record_add () [ex_i_price] [] =
       generate_expectations_from_stats record_add () [ex_i_price\<lparr>is_nullable := False\<rparr>] []
   \<and> ExpectColumnValuesToNotBeNull ''i_price'' \<in> set (emitted [ex_i_price])"
proof -
  have h: "map declared_not_null [ex_i_price] =
           map declared_not_null [ex_i_price\<lparr>is_nullable := False\<rparr>]"
    by (simp add: declared_not_null_def)
  have p: "is_nullable ex_i_price" "null_count ex_i_price = Some 0" "list_all stat_ok [ex_i_price]"
    "column ex_i_price = ''i_price''"
    by (simp_all add: ex_i_price_def stat_ok_def)
  note t = is_nullable_never_read [OF h, of record_add "()" "[]"]
  have g: "generate_expectations_from_stats record_add () [ex_i_price] [] =
       generate_expectations_from_stats record_add () [ex_i_price\<lparr>is_nullable := False\<rparr>] []"
    using t by (rule conjunct1)
  have n: "ExpectColumnValuesToNotBeNull ''i_price'' \<in> set (emitted [ex_i_price])"
    using conjunct2 [OF conjunct2 [OF t]] p by simp
  show ?thesis
    using h p g n by (intro conjI)
qed

end
